theory Spec2Isabelle
  imports Complex_Main "HOL-Library.AList"
begin

section \<open>The Vocly game server (serverVocly.py)\<close>

text \<open>
  A shallow embedding of the server's game logic. Python strings are \<open>string\<close>s of
  code points below 256, dictionaries whose iteration order the code depends on are
  association lists with unique keys (\<open>AList.update\<close> keeps the position of an existing
  key and appends a new one, as a Python dict does), the other dictionaries are maps,
  \<open>None\<close> is \<open>None\<close>. The readings of \<open>time.time()\<close> and the draws of \<open>random\<close> are
  arguments of the handlers. Every handler runs as one step: the suspension points of the
  coroutines (\<open>await writer.drain()\<close>) are not modelled, and in the command handlers and
  the timer a write to a stream always succeeds. In \<open>cleanup_client\<close>, where a write that
  raises skips the deletions that follow it, the streams whose write raises are an
  argument. What a handler sends is appended to the field \<open>sent\<close> of the server state.
  A handler returns the exception it raised, if any, together with the state it had
  reached when it raised.
\<close>

subsection \<open>Constants\<close>

definition WORD_BANK :: "string list" where
  "WORD_BANK =
    [''REACT'', ''FLASK'', ''PIANO'', ''TIGER'', ''STORM'', ''BEACH'', ''TOWER'', ''SMOKE'',
     ''PLANT'', ''CLOUD'', ''MAGIC'', ''QUEST'', ''BRAVE'', ''CRISP'', ''FROST'', ''GLOBE'',
     ''DREAM'', ''FIGHT'', ''GRACE'', ''HEART'', ''JOKER'', ''KNIFE'', ''LUNAR'', ''MOUNT'',
     ''NIGHT'', ''OCEAN'', ''PRIDE'', ''QUICK'', ''RIVER'', ''SHINE'', ''TRUST'', ''UNITY'',
     ''VALOR'', ''WHALE'', ''YOUTH'', ''ZEBRA'', ''APPLE'', ''BREAD'', ''CHAIR'', ''DANCE'',
     ''EAGLE'', ''FLAME'', ''GRAPE'', ''HOUSE'', ''IMAGE'', ''JUICE'', ''LEMON'', ''MOUSE'',
     ''NURSE'', ''PARTY'']"

definition MAX_GUESSES :: nat where
  "MAX_GUESSES = 6"

definition WORD_LENGTH :: nat where
  "WORD_LENGTH = 5"

definition GAME_DURATION :: nat where
  "GAME_DURATION = 180"

subsection \<open>Python values\<close>

datatype py_error = IndexError | KeyError | TypeError | ConnectionError

text \<open>\<open>d.get(k, default)\<close> of a dictionary.\<close>

definition get_or :: "('k \<rightharpoonup> 'v) \<Rightarrow> 'k \<Rightarrow> 'v \<Rightarrow> 'v" where
  "get_or m k d = (case m k of None \<Rightarrow> d | Some v \<Rightarrow> v)"

text \<open>
  A character of a string is a code point below 256. \<open>str.upper()\<close> maps the letters
  a to z and the letters 224 to 254 but the division sign (247) to the code point 32
  below, and the sharp s (223) to the two letters SS; it changes no other code point
  below 256 but two, the micro sign (181) and the y with diaeresis (255), whose upper
  case forms (code points 924 and 376) are not characters of the model. \<open>upper_char\<close>
  leaves these two as they are, and \<open>upper_in_model\<close> holds of the strings without them:
  on these \<open>py_upper\<close> is \<open>str.upper()\<close>.
\<close>

definition upper_char :: "char \<Rightarrow> string" where
  "upper_char c =
     (let n = (of_char c :: nat) in
      if (97 \<le> n \<and> n \<le> 122) \<or> (224 \<le> n \<and> n \<le> 254 \<and> n \<noteq> 247) then [char_of (n - 32)]
      else if n = 223 then ''SS''
      else [c])"

definition py_upper :: "string \<Rightarrow> string" where
  "py_upper s = concat (map upper_char s)"


text \<open>
  \<open>str.strip()\<close> removes leading and trailing whitespace. Below 256 the whitespace of
  Python is tab, line feed, vertical tab, form feed, carriage return, the separators 28
  to 31, the space, the next line control (133) and the no-break space (160).
\<close>

definition is_space :: "char \<Rightarrow> bool" where
  "is_space c = ((of_char c :: nat) \<in> {9, 10, 11, 12, 13, 28, 29, 30, 31, 32, 133, 160})"

definition py_strip :: "string \<Rightarrow> string" where
  "py_strip s = rev (dropWhile is_space (rev (dropWhile is_space s)))"

subsection \<open>The guess evaluator: \<open>check_wordle_guess\<close>\<close>

datatype mark = Correct | Present | Absent

text \<open>The loop \<open>for char in secret: secret_counts[char] = secret_counts.get(char, 0) + 1\<close>.\<close>

fun count_chars :: "string \<Rightarrow> (char \<rightharpoonup> int) \<Rightarrow> (char \<rightharpoonup> int)" where
  "count_chars [] m = m"
| "count_chars (c # cs) m = count_chars cs (m(c \<mapsto> get_or m c 0 + 1))"

text \<open>A \<open>for i in range(...)\<close> loop whose body may raise: the first exception ends it.\<close>

fun for_range :: "(nat \<Rightarrow> 's \<Rightarrow> py_error + 's) \<Rightarrow> nat list \<Rightarrow> 's \<Rightarrow> py_error + 's" where
  "for_range f [] s = Inr s"
| "for_range f (i # is) s =
     (case f i s of Inl e \<Rightarrow> Inl e | Inr s' \<Rightarrow> for_range f is s')"

text \<open>
  The body of pass 1. \<open>guess[i]\<close> raises IndexError when the guess is shorter than the
  secret, \<open>secret_counts[guess[i]] -= 1\<close> raises KeyError on a missing key.
\<close>

definition pass1_step ::
  "string \<Rightarrow> string \<Rightarrow> nat \<Rightarrow> mark list \<times> (char \<rightharpoonup> int)
     \<Rightarrow> py_error + mark list \<times> (char \<rightharpoonup> int)" where
  "pass1_step guess secret i s =
     (case s of (feedback, secret_counts) \<Rightarrow>
        if length guess \<le> i then Inl IndexError
        else if guess ! i = secret ! i then
          (case secret_counts (guess ! i) of
             None \<Rightarrow> Inl KeyError
           | Some n \<Rightarrow> Inr (feedback[i := Correct], secret_counts(guess ! i \<mapsto> n - 1)))
        else Inr (feedback, secret_counts))"

text \<open>The body of pass 2: a position marked correct is skipped.\<close>

definition pass2_step ::
  "string \<Rightarrow> string \<Rightarrow> nat \<Rightarrow> mark list \<times> (char \<rightharpoonup> int)
     \<Rightarrow> py_error + mark list \<times> (char \<rightharpoonup> int)" where
  "pass2_step guess secret i s =
     (case s of (feedback, secret_counts) \<Rightarrow>
        if feedback ! i = Correct then Inr (feedback, secret_counts)
        else if length guess \<le> i then Inl IndexError
        else if guess ! i \<in> set secret \<and> get_or secret_counts (guess ! i) 0 > 0 then
          (case secret_counts (guess ! i) of
             None \<Rightarrow> Inl KeyError
           | Some n \<Rightarrow> Inr (feedback[i := Present], secret_counts(guess ! i \<mapsto> n - 1)))
        else Inr (feedback, secret_counts))"

definition check_wordle_guess :: "string \<Rightarrow> string \<Rightarrow> py_error + mark list" where
  "check_wordle_guess guess secret =
     (let feedback = replicate (length secret) Absent;
          secret_counts = count_chars secret Map.empty
      in case for_range (pass1_step guess secret) [0..<length secret] (feedback, secret_counts) of
           Inl e \<Rightarrow> Inl e
         | Inr s1 \<Rightarrow>
             (case for_range (pass2_step guess secret) [0..<length secret] s1 of
                Inl e \<Rightarrow> Inl e
              | Inr (feedback', _) \<Rightarrow> Inr feedback'))"

text \<open>
  The number of positions of the guess that hold the letter \<open>c\<close> and are marked correct
  or present.
\<close>

definition marked :: "string \<Rightarrow> mark list \<Rightarrow> char \<Rightarrow> nat" where
  "marked guess feedback c =
     length (filter (\<lambda>i. guess ! i = c \<and> feedback ! i \<noteq> Absent) [0..<length feedback])"

text \<open>
  The remaining count of the letter at position \<open>i\<close> of the guess when pass 2 reaches
  that position: the occurrences of the letter in the secret, less the positions of the
  guess that hold the letter and are marked correct (pass 1 has consumed them), less the
  positions before \<open>i\<close> that hold the letter and are marked present.
\<close>

definition remaining_count :: "string \<Rightarrow> string \<Rightarrow> mark list \<Rightarrow> nat \<Rightarrow> int" where
  "remaining_count guess secret feedback i =
     int (count_list secret (guess ! i))
     - int (length (filter
              (\<lambda>j. guess ! j = guess ! i
                     \<and> (feedback ! j = Correct \<or> (j < i \<and> feedback ! j = Present)))
              [0..<length feedback]))"

text \<open>What holds after \<open>k\<close> rounds of pass 1 and of pass 2.\<close>

definition pass1_inv ::
  "string \<Rightarrow> string \<Rightarrow> nat \<Rightarrow> mark list \<times> (char \<rightharpoonup> int) \<Rightarrow> bool" where
  "pass1_inv guess secret k s =
     (case s of (fb, cnt) \<Rightarrow>
        length fb = length secret
        \<and> (\<forall>i < length secret.
              fb ! i = (if i < k \<and> guess ! i = secret ! i then Correct else Absent))
        \<and> dom cnt = set secret
        \<and> (\<forall>c. int (marked guess fb c) + get_or cnt c 0 = int (count_list secret c))
        \<and> (\<forall>c. int (count_list (drop k secret) c) \<le> get_or cnt c 0))"

definition pass2_inv ::
  "string \<Rightarrow> string \<Rightarrow> nat \<Rightarrow> mark list \<times> (char \<rightharpoonup> int) \<Rightarrow> bool" where
  "pass2_inv guess secret k s =
     (case s of (fb, cnt) \<Rightarrow>
        length fb = length secret
        \<and> (\<forall>i < length secret. (fb ! i = Correct) = (guess ! i = secret ! i))
        \<and> (\<forall>i < length secret. k \<le> i \<longrightarrow> fb ! i \<noteq> Present)
        \<and> (\<forall>i < k. guess ! i \<noteq> secret ! i \<longrightarrow>
              fb ! i = (if 0 < remaining_count guess secret fb i then Present else Absent))
        \<and> (\<forall>c. int (marked guess fb c) + get_or cnt c 0 = int (count_list secret c))
        \<and> (\<forall>c. 0 \<le> get_or cnt c 0))"

subsection \<open>Rooms, messages and the server state\<close>

datatype room_state = Waiting | Ready | Playing | Finished

datatype result = Won | Lost

text \<open>
  A room. \<open>guesses\<close>, \<open>finish_times\<close> and \<open>results\<close> are dictionaries keyed by client
  id; a finish time or a result that is \<open>None\<close> in Python is \<open>Some None\<close> here, and a
  key the dictionary does not hold is \<open>None\<close>.
\<close>

record room =
  players :: "string list"
  word :: string
  state :: room_state
  start_time :: "real option"
  guesses :: "string \<rightharpoonup> (string \<times> mark list) list"
  finish_times :: "string \<rightharpoonup> real option"
  results :: "string \<rightharpoonup> result option"

text \<open>
  The result line of \<open>game_over\<close>. The source formats it as text
  (\<open>f"Pemain 1 MENANG! ({t1:.2f}s)"\<close> and so on); the model keeps which of the six
  lines it is and the values it shows.
\<close>

datatype verdict =
    DrawBothLost string
  | Player1Wins real
  | Player2Wins real
  | Player1Faster real real
  | Player2Faster real real
  | DrawTie real

datatype jval =
    JStr string
  | JInt int
  | JNum real
  | JBool bool
  | JFeedback "mark list"
  | JVerdict verdict
  | JObj "(string \<times> jval) list"

text \<open>
  A message \<open>{'type': ..., 'data': ...}\<close> as \<open>send_message\<close> builds it; its timestamp is
  left out.
\<close>

datatype message = Msg string "(string \<times> jval) list"

text \<open>
  \<open>ALL_CLIENTS\<close> maps a client id to the room code of its entry (the entry's reader and
  writer are the client's own stream, which the model identifies with the client id).
  \<open>active_timers\<close> holds the room codes that have a timer task.
\<close>

record server =
  ALL_CLIENTS :: "string \<rightharpoonup> string option"
  game_rooms :: "(string \<times> room) list"
  active_timers :: "string set"
  sent :: "(string \<times> message) list"

type_synonym run = "py_error option \<times> server"

text \<open>A mutation of a room object that the registry holds under \<open>room_code\<close>.\<close>

definition put_room :: "string \<Rightarrow> room \<Rightarrow> server \<Rightarrow> server" where
  "put_room room_code r st = st\<lparr>game_rooms := AList.update room_code r (game_rooms st)\<rparr>"

subsection \<open>Helper functions\<close>

definition room_code_alphabet :: string where
  "room_code_alphabet = ''ABCDEFGHJKLMNPQRSTUVWXYZ23456789''"

text \<open>What \<open>generate_room_code\<close> can return.\<close>

definition generated_room_code :: "string \<Rightarrow> bool" where
  "generated_room_code c = (length c = 5 \<and> list_all (\<lambda>x. x \<in> set room_code_alphabet) c)"

definition get_player_room :: "string \<Rightarrow> server \<Rightarrow> (string \<times> room) option" where
  "get_player_room client_id st =
     find (\<lambda>(room_code, r). client_id \<in> set (players r)) (game_rooms st)"

definition stop_timer :: "string \<Rightarrow> server \<Rightarrow> server" where
  "stop_timer room_code st =
     (if room_code \<in> active_timers st
      then st\<lparr>active_timers := active_timers st - {room_code}\<rparr>
      else st)"

definition send_message :: "string \<Rightarrow> string \<Rightarrow> (string \<times> jval) list \<Rightarrow> server \<Rightarrow> server" where
  "send_message client_id message_type data st =
     st\<lparr>sent := sent st @ [(client_id, Msg message_type data)]\<rparr>"

text \<open>
  \<open>broadcast_to_room\<close>: every player of the room in order, but the excluded one and
  those without an entry in \<open>ALL_CLIENTS\<close>.
\<close>

definition receivers :: "string option \<Rightarrow> server \<Rightarrow> string list \<Rightarrow> string list" where
  "receivers exclude_client st ps =
     filter (\<lambda>client_id. Some client_id \<noteq> exclude_client \<and> ALL_CLIENTS st client_id \<noteq> None) ps"

definition broadcast_to_room ::
  "string \<Rightarrow> string \<Rightarrow> (string \<times> jval) list \<Rightarrow> string option \<Rightarrow> server \<Rightarrow> server" where
  "broadcast_to_room room_code message_type data exclude_client st =
     (case map_of (game_rooms st) room_code of
        None \<Rightarrow> st
      | Some r \<Rightarrow>
          st\<lparr>sent := sent st @
                map (\<lambda>client_id. (client_id, Msg message_type data))
                  (receivers exclude_client st (players r))\<rparr>)"

subsection \<open>Game logic\<close>

text \<open>
  \<open>all(room['finish_times'][pid] is not None for pid in room['players'])\<close>: it stops at
  the first player without a finish time, and a player without an entry raises KeyError.
\<close>

fun all_finished :: "(string \<rightharpoonup> real option) \<Rightarrow> string list \<Rightarrow> py_error + bool" where
  "all_finished ft [] = Inr True"
| "all_finished ft (pid # ps) =
     (case ft pid of
        None \<Rightarrow> Inl KeyError
      | Some None \<Rightarrow> Inr False
      | Some (Some t) \<Rightarrow> all_finished ft ps)"

text \<open>The chain \<open>if r1 == 'lost' and r2 == 'lost': ... else: ...\<close> of \<open>check_game_end\<close>.\<close>

definition determine_winner ::
  "result option \<Rightarrow> result option \<Rightarrow> real \<Rightarrow> real \<Rightarrow> string \<Rightarrow> verdict" where
  "determine_winner r1 r2 t1 t2 w =
     (if r1 = Some Lost \<and> r2 = Some Lost then DrawBothLost w
      else if r1 = Some Won \<and> r2 = Some Lost then Player1Wins t1
      else if r1 = Some Lost \<and> r2 = Some Won then Player2Wins t2
      else if t1 < t2 then Player1Faster t1 t2
      else if t2 < t1 then Player2Faster t2 t1
      else DrawTie t1)"

text \<open>
  \<open>check_game_end\<close>. After the room is set to finished and its timer stopped,
  \<open>room['players'][0]\<close> and \<open>[1]\<close> raise IndexError on a shorter list and the lookups in
  \<open>finish_times\<close> and \<open>results\<close> raise KeyError on a missing key. The two finish times
  are not \<open>None\<close> there, since \<open>all_finished\<close> held; the model gives the branch that
  compares or formats a \<open>None\<close> the TypeError of Python.
\<close>

definition check_game_end :: "string \<Rightarrow> server \<Rightarrow> run" where
  "check_game_end room_code st =
     (case map_of (game_rooms st) room_code of
        None \<Rightarrow> (None, st)
      | Some r \<Rightarrow>
          if state r \<noteq> Playing then (None, st)
          else
            (case all_finished (finish_times r) (players r) of
               Inl e \<Rightarrow> (Some e, st)
             | Inr False \<Rightarrow> (None, st)
             | Inr True \<Rightarrow>
                 (let st1 = stop_timer room_code (put_room room_code (r\<lparr>state := Finished\<rparr>) st)
                  in case players r of
                       [] \<Rightarrow> (Some IndexError, st1)
                     | [p1] \<Rightarrow> (Some IndexError, st1)
                     | p1 # p2 # _ \<Rightarrow>
                         (case finish_times r p1 of
                            None \<Rightarrow> (Some KeyError, st1)
                          | Some t1 \<Rightarrow>
                         (case finish_times r p2 of
                            None \<Rightarrow> (Some KeyError, st1)
                          | Some t2 \<Rightarrow>
                         (case results r p1 of
                            None \<Rightarrow> (Some KeyError, st1)
                          | Some r1 \<Rightarrow>
                         (case results r p2 of
                            None \<Rightarrow> (Some KeyError, st1)
                          | Some r2 \<Rightarrow>
                         (case (t1, t2) of
                            (Some t1', Some t2') \<Rightarrow>
                              (None,
                               broadcast_to_room room_code ''game_over''
                                 [(''result'', JVerdict (determine_winner r1 r2 t1' t2' (word r))),
                                  (''word'', JStr (word r))]
                                 None st1)
                          | _ \<Rightarrow> (Some TypeError, st1)))))))))"

text \<open>
  The loop of \<open>timer_game\<close> over the players. \<open>now pid\<close> is what \<open>time.time()\<close> returns
  when the loop sets the finish time of \<open>pid\<close>; subtracting a start time that is
  \<open>None\<close> raises TypeError.
\<close>

fun timeout_players :: "(string \<Rightarrow> real) \<Rightarrow> string list \<Rightarrow> room \<Rightarrow> py_error option \<times> room" where
  "timeout_players now [] r = (None, r)"
| "timeout_players now (pid # ps) r =
     (case finish_times r pid of
        None \<Rightarrow> (Some KeyError, r)
      | Some (Some t) \<Rightarrow> timeout_players now ps r
      | Some None \<Rightarrow>
          (case start_time r of
             None \<Rightarrow> (Some TypeError, r)
           | Some t0 \<Rightarrow>
               timeout_players now ps
                 (r\<lparr>finish_times := (finish_times r)(pid \<mapsto> Some (now pid - t0)),
                    results := (results r)(pid \<mapsto> Some Lost)\<rparr>)))"

text \<open>
  \<open>timer_game\<close> from the point where \<open>asyncio.sleep(GAME_DURATION)\<close> has returned: the
  natural expiry of the timer of \<open>room_code\<close>. (A cancelled task never reaches it.)
\<close>

definition timer_game :: "string \<Rightarrow> (string \<Rightarrow> real) \<Rightarrow> server \<Rightarrow> run" where
  "timer_game room_code now st =
     (case map_of (game_rooms st) room_code of
        None \<Rightarrow> (None, st)
      | Some r \<Rightarrow>
          if state r \<noteq> Playing then (None, st)
          else
            (case timeout_players now (players r) r of
               (Some e, r') \<Rightarrow> (Some e, put_room room_code r' st)
             | (None, r') \<Rightarrow>
                 (let st1 = put_room room_code r' st;
                      st2 = (if room_code \<in> active_timers st1
                             then st1\<lparr>active_timers := active_timers st1 - {room_code}\<rparr>
                             else st1)
                  in check_game_end room_code st2)))"

subsection \<open>Command handlers\<close>

text \<open>
  \<open>handle_create_room\<close>; \<open>room_code\<close> is what \<open>generate_room_code()\<close> returned and \<open>w\<close>
  what \<open>random.choice(WORD_BANK)\<close> returned. \<open>ALL_CLIENTS[client_id]\<close> raises KeyError
  for a client without an entry, after the room has been stored.
\<close>

definition handle_create_room :: "string \<Rightarrow> string \<Rightarrow> string \<Rightarrow> server \<Rightarrow> run" where
  "handle_create_room client_id room_code w st =
     (let st1 = put_room room_code
                  \<lparr>players = [client_id],
                   word = py_upper w,
                   state = Waiting,
                   start_time = None,
                   guesses = [client_id \<mapsto> []],
                   finish_times = [client_id \<mapsto> None],
                   results = [client_id \<mapsto> None]\<rparr> st
      in case ALL_CLIENTS st1 client_id of
           None \<Rightarrow> (Some KeyError, st1)
         | Some _ \<Rightarrow>
             (None,
              send_message client_id ''room_created'' [(''room_code'', JStr room_code)]
                (st1\<lparr>ALL_CLIENTS := (ALL_CLIENTS st1)(client_id \<mapsto> Some room_code)\<rparr>)))"

definition handle_join_room :: "string \<Rightarrow> string \<Rightarrow> server \<Rightarrow> run" where
  "handle_join_room client_id room_code0 st =
     (let room_code = py_strip (py_upper room_code0) in
      case map_of (game_rooms st) room_code of
        None \<Rightarrow>
          (None, send_message client_id ''error'' [(''message'', JStr ''Room tidak ditemukan'')] st)
      | Some r \<Rightarrow>
          if length (players r) \<ge> 2 then
            (None, send_message client_id ''error'' [(''message'', JStr ''Room penuh'')] st)
          else if state r \<noteq> Waiting then
            (None, send_message client_id ''error'' [(''message'', JStr ''Game sudah dimulai'')] st)
          else
            (let st1 = put_room room_code
                         (r\<lparr>players := players r @ [client_id],
                            guesses := (guesses r)(client_id \<mapsto> []),
                            finish_times := (finish_times r)(client_id \<mapsto> None),
                            results := (results r)(client_id \<mapsto> None),
                            state := Ready\<rparr>) st
             in case ALL_CLIENTS st1 client_id of
                  None \<Rightarrow> (Some KeyError, st1)
                | Some _ \<Rightarrow>
                    (None,
                     broadcast_to_room room_code ''room_ready''
                       [(''message'', JStr ''Kedua pemain terhubung! Tekan START.''),
                        (''player_count'', JInt 2)]
                       None
                       (st1\<lparr>ALL_CLIENTS := (ALL_CLIENTS st1)(client_id \<mapsto> Some room_code)\<rparr>))))"

text \<open>The reset loop of \<open>handle_start_game\<close>.\<close>

fun reset_players :: "string list \<Rightarrow> room \<Rightarrow> room" where
  "reset_players [] r = r"
| "reset_players (pid # ps) r =
     reset_players ps
       (r\<lparr>finish_times := (finish_times r)(pid \<mapsto> None),
          results := (results r)(pid \<mapsto> None),
          guesses := (guesses r)(pid \<mapsto> [])\<rparr>)"

text \<open>\<open>handle_start_game\<close>; \<open>now\<close> is the reading of \<open>time.time()\<close>.\<close>

definition handle_start_game :: "string \<Rightarrow> real \<Rightarrow> server \<Rightarrow> run" where
  "handle_start_game client_id now st =
     (case get_player_room client_id st of
        None \<Rightarrow>
          (None, send_message client_id ''error'' [(''message'', JStr ''Room tidak ditemukan'')] st)
      | Some (room_code, r) \<Rightarrow>
          if state r \<noteq> Ready then
            (None, send_message client_id ''error'' [(''message'', JStr ''Game tidak bisa dimulai'')] st)
          else
            (let r1 = reset_players (players r) (r\<lparr>state := Playing, start_time := Some now\<rparr>);
                 st1 = put_room room_code r1 st;
                 st2 = broadcast_to_room room_code ''game_started''
                         [(''message'', JStr ''Game dimulai!''),
                          (''word_length'', JInt (int WORD_LENGTH)),
                          (''max_guesses'', JInt (int MAX_GUESSES)),
                          (''duration'', JInt (int GAME_DURATION))]
                         None st1
             in (None, st2\<lparr>active_timers := insert room_code (active_timers st2)\<rparr>)))"

text \<open>
  The two branches of \<open>handle_make_guess\<close> that end a player's round (\<open>if is_correct\<close>
  and \<open>elif guess_count >= MAX_GUESSES\<close>): they differ in the result and in the text
  sent. \<open>st\<close> holds the room \<open>r\<close> under \<open>room_code\<close>.
\<close>

definition finish_player ::
  "string \<Rightarrow> string \<Rightarrow> room \<Rightarrow> result \<Rightarrow> real \<Rightarrow> server \<Rightarrow> run" where
  "finish_player client_id room_code r res now st =
     (case start_time r of
        None \<Rightarrow> (Some TypeError, st)
      | Some t0 \<Rightarrow>
          (let elapsed = now - t0;
               st1 = put_room room_code
                       (r\<lparr>finish_times := (finish_times r)(client_id \<mapsto> Some elapsed),
                          results := (results r)(client_id \<mapsto> Some res)\<rparr>) st;
               st2 = send_message client_id ''player_finished''
                       [(''result'', JStr (case res of Won \<Rightarrow> ''won'' | Lost \<Rightarrow> ''lost'')),
                        (''time'', JNum elapsed),
                        (''message'',
                           JStr (case res of
                                   Won \<Rightarrow> ''Benar! Menunggu lawan...''
                                 | Lost \<Rightarrow> ''Kesempatan habis! Kata: '' @ word r))]
                       st1
           in check_game_end room_code st2))"

text \<open>\<open>handle_make_guess\<close>; \<open>now\<close> is the reading of \<open>time.time()\<close> in either branch.\<close>

definition handle_make_guess :: "string \<Rightarrow> string \<Rightarrow> real \<Rightarrow> server \<Rightarrow> run" where
  "handle_make_guess client_id guess0 now st =
     (let guess = py_strip (py_upper guess0) in
      case get_player_room client_id st of
        None \<Rightarrow>
          (None, send_message client_id ''error'' [(''message'', JStr ''Game tidak aktif'')] st)
      | Some (room_code, r) \<Rightarrow>
          if state r \<noteq> Playing then
            (None, send_message client_id ''error'' [(''message'', JStr ''Game tidak aktif'')] st)
          else
            (case finish_times r client_id of
               None \<Rightarrow> (Some KeyError, st)
             | Some (Some t) \<Rightarrow> (None, st)
             | Some None \<Rightarrow>
                 if length guess \<noteq> WORD_LENGTH then
                   (None,
                    send_message client_id ''error''
                      [(''message'', JStr ''Tebakan harus 5 huruf'')] st)
                 else
                   (case check_wordle_guess guess (word r) of
                      Inl e \<Rightarrow> (Some e, st)
                    | Inr feedback \<Rightarrow>
                        (case guesses r client_id of
                           None \<Rightarrow> (Some KeyError, st)
                         | Some gs \<Rightarrow>
                             (let r1 = r\<lparr>guesses := (guesses r)(client_id \<mapsto> gs @ [(guess, feedback)])\<rparr>;
                                  guess_count = length gs + 1;
                                  is_correct = (guess = word r);
                                  st1 = put_room room_code r1 st;
                                  st2 = send_message client_id ''guess_result''
                                          [(''guess'', JStr guess),
                                           (''feedback'', JFeedback feedback),
                                           (''guess_count'', JInt (int guess_count)),
                                           (''is_correct'', JBool is_correct)]
                                          st1;
                                  st3 = broadcast_to_room room_code ''opponent_guessed''
                                          [(''guess_count'', JInt (int guess_count))]
                                          (Some client_id) st2
                              in if is_correct then
                                   finish_player client_id room_code r1 Won now st3
                                 else if guess_count \<ge> MAX_GUESSES then
                                   finish_player client_id room_code r1 Lost now st3
                                 else (None, st3))))))"

text \<open>The dictionary \<open>{p: v for p in players}\<close>.\<close>

definition dict_for :: "string list \<Rightarrow> 'v \<Rightarrow> (string \<rightharpoonup> 'v)" where
  "dict_for ps v = (\<lambda>p. if p \<in> set ps then Some v else None)"

text \<open>\<open>handle_rematch\<close>; \<open>w\<close> is what \<open>random.choice(WORD_BANK)\<close> returned.\<close>

definition handle_rematch :: "string \<Rightarrow> string \<Rightarrow> server \<Rightarrow> run" where
  "handle_rematch client_id w st =
     (case get_player_room client_id st of
        None \<Rightarrow>
          (None, send_message client_id ''error'' [(''message'', JStr ''Tidak bisa rematch'')] st)
      | Some (room_code, r) \<Rightarrow>
          if state r \<noteq> Finished then
            (None, send_message client_id ''error'' [(''message'', JStr ''Tidak bisa rematch'')] st)
          else
            (let st1 = stop_timer room_code st;
                 st2 = put_room room_code
                         \<lparr>players = players r,
                          word = py_upper w,
                          state = Ready,
                          start_time = None,
                          guesses = dict_for (players r) [],
                          finish_times = dict_for (players r) None,
                          results = dict_for (players r) None\<rparr> st1
             in (None,
                 broadcast_to_room room_code ''rematch_ready''
                   [(''message'', JStr ''Rematch siap! Tekan START.'')] None st2)))"

subsection \<open>Client handler\<close>

text \<open>
  \<open>broadcast_to_room\<close> when a write can fail: \<open>write_fails client_id\<close> says that
  \<open>send_message\<close> to the stream of that client raises (\<open>await writer.drain()\<close> on a lost
  connection raises ConnectionResetError, a ConnectionError). The exception leaves the
  loop over the players, so the players after that client are not written to.
\<close>

fun send_each ::
  "(string \<Rightarrow> bool) \<Rightarrow> string \<Rightarrow> (string \<times> jval) list \<Rightarrow> string list \<Rightarrow> server \<Rightarrow> run" where
  "send_each write_fails message_type data [] st = (None, st)"
| "send_each write_fails message_type data (client_id # cs) st =
     (if write_fails client_id then (Some ConnectionError, st)
      else send_each write_fails message_type data cs
             (send_message client_id message_type data st))"

definition broadcast_to_room_raising ::
  "(string \<Rightarrow> bool) \<Rightarrow> string \<Rightarrow> string \<Rightarrow> (string \<times> jval) list \<Rightarrow> string option
     \<Rightarrow> server \<Rightarrow> run" where
  "broadcast_to_room_raising write_fails room_code message_type data exclude_client st =
     (case map_of (game_rooms st) room_code of
        None \<Rightarrow> (None, st)
      | Some r \<Rightarrow>
          send_each write_fails message_type data (receivers exclude_client st (players r)) st)"

text \<open>
  \<open>cleanup_client\<close>. \<open>if room_code and room\<close> holds for a room that was found unless its
  code is the empty string. The broadcast is awaited before the room and the client are
  deleted and no exception is caught: when a write of the broadcast raises, the timer has
  been stopped and neither deletion takes place. Closing the stream is not modelled.
\<close>

definition cleanup_client :: "(string \<Rightarrow> bool) \<Rightarrow> string \<Rightarrow> server \<Rightarrow> run" where
  "cleanup_client write_fails client_id st =
     (case
        (case get_player_room client_id st of
           None \<Rightarrow> (None, st)
         | Some (room_code, r) \<Rightarrow>
             if room_code = [] then (None, st)
             else
               (case
                  (if state r \<in> {Ready, Playing}
                   then broadcast_to_room_raising write_fails room_code ''opponent_disconnected''
                          [(''message'', JStr ''Lawan terputus! Kamu MENANG!'')]
                          (Some client_id) (stop_timer room_code st)
                   else (None, stop_timer room_code st))
                of
                  (Some e, st2) \<Rightarrow> (Some e, st2)
                | (None, st2) \<Rightarrow>
                    (None, st2\<lparr>game_rooms := AList.delete room_code (game_rooms st2)\<rparr>)))
      of
        (Some e, st3) \<Rightarrow> (Some e, st3)
      | (None, st3) \<Rightarrow> (None, st3\<lparr>ALL_CLIENTS := (ALL_CLIENTS st3)(client_id := None)\<rparr>))"

text \<open>The \<open>server_info\<close> object of the welcome message.\<close>

definition server_info :: "(string \<times> jval) list" where
  "server_info =
     [(''word_length'', JInt (int WORD_LENGTH)),
      (''max_guesses'', JInt (int MAX_GUESSES)),
      (''game_duration'', JInt (int GAME_DURATION))]"

text \<open>
  \<open>handle_client\<close> up to its read loop: the welcome message and the registration of the
  client. \<open>client_id\<close> is what \<open>generate_client_id()\<close> returned.
\<close>

definition handle_client_connect :: "string \<Rightarrow> server \<Rightarrow> server" where
  "handle_client_connect client_id st =
     (let st1 = send_message client_id ''welcome''
                  [(''message'', JStr ''Vocly Server - AsyncIO''),
                   (''client_id'', JStr client_id),
                   (''server_info'', JObj server_info)]
                  st
      in st1\<lparr>ALL_CLIENTS := (ALL_CLIENTS st1)(client_id \<mapsto> None)\<rparr>)"

subsection \<open>Invariants\<close>


definition room_inv :: "room \<Rightarrow> bool" where
  "room_inv r =
     ((length (players r) = 1 \<or> length (players r) = 2)
      \<and> (\<forall>p \<in> set (players r).
            guesses r p \<noteq> None \<and> finish_times r p \<noteq> None \<and> results r p \<noteq> None)
      \<and> length (word r) = WORD_LENGTH)"

definition rooms_inv :: "server \<Rightarrow> bool" where
  "rooms_inv st = (\<forall>(room_code, r) \<in> set (game_rooms st). room_inv r)"

subsection \<open>Example states\<close>

text \<open>The global state at start-up: no client, no room, no timer.\<close>

definition initial_server :: server where
  "initial_server = \<lparr>ALL_CLIENTS = Map.empty, game_rooms = [], active_timers = {}, sent = []\<rparr>"

text \<open>A round in progress between two connected clients, started at time 1000.\<close>

definition example_room :: room where
  "example_room =
     \<lparr>players = [''c1'', ''c2''],
      word = ''APPLE'',
      state = Playing,
      start_time = Some 1000,
      guesses = [''c1'' \<mapsto> [], ''c2'' \<mapsto> []],
      finish_times = [''c1'' \<mapsto> None, ''c2'' \<mapsto> None],
      results = [''c1'' \<mapsto> None, ''c2'' \<mapsto> None]\<rparr>"

definition example_server :: "room \<Rightarrow> server" where
  "example_server r =
     \<lparr>ALL_CLIENTS = [''c1'' \<mapsto> Some ''ABCDE'', ''c2'' \<mapsto> Some ''ABCDE''],
      game_rooms = [(''ABCDE'', r)],
      active_timers = {''ABCDE''},
      sent = []\<rparr>"

text \<open>The example room with given finish times and results of its two players.\<close>

definition example_room_with ::
  "real option \<Rightarrow> result option \<Rightarrow> real option \<Rightarrow> result option \<Rightarrow> room" where
  "example_room_with t1 r1 t2 r2 =
     example_room\<lparr>finish_times := [''c1'' \<mapsto> t1, ''c2'' \<mapsto> t2],
                  results := [''c1'' \<mapsto> r1, ''c2'' \<mapsto> r2]\<rparr>"




section \<open>Properties\<close>

subsection \<open>The guess evaluator\<close>

lemma for_range_append:
  "for_range f (xs @ ys) s =
     (case for_range f xs s of Inl e \<Rightarrow> Inl e | Inr s' \<Rightarrow> for_range f ys s')"
  by (induction xs arbitrary: s) (auto split: sum.splits)

lemma count_chars_gen:
  "count_chars s m c =
     (if c \<in> set s \<or> m c \<noteq> None then Some (get_or m c 0 + int (count_list s c)) else None)"
  by (induction s arbitrary: m) (auto simp: get_or_def split: option.splits)

lemma count_chars_empty:
  "count_chars s Map.empty c = (if c \<in> set s then Some (int (count_list s c)) else None)"
  by (simp add: count_chars_gen get_or_def)

lemma marked_card:
  "marked guess fb c = card {i. i < length fb \<and> guess ! i = c \<and> fb ! i \<noteq> Absent}"
  unfolding marked_def length_filter_conv_card
  by (rule arg_cong [where f = card]) auto

lemma marked_update:
  assumes "i < length fb" "fb ! i = Absent" "m \<noteq> Absent"
  shows "marked guess (fb[i := m]) c = marked guess fb c + (if guess ! i = c then 1 else 0)"
proof -
  let ?A = "{j. j < length fb \<and> guess ! j = c \<and> fb ! j \<noteq> Absent}"
  let ?B = "{j. j < length (fb[i := m]) \<and> guess ! j = c \<and> fb[i := m] ! j \<noteq> Absent}"
  have fin: "finite ?A" by simp
  have notin: "i \<notin> ?A" using assms by simp
  show ?thesis
  proof (cases "guess ! i = c")
    case True
    have "?B = insert i ?A"
      using assms True by (auto simp: nth_list_update)
    then show ?thesis
      using fin notin True by (simp add: marked_card)
  next
    case False
    have "?B = ?A"
      using assms False by (auto simp: nth_list_update)
    then show ?thesis
      using False by (simp add: marked_card)
  qed
qed

lemma marked_replicate: "marked guess (replicate n Absent) c = 0"
  by (simp add: marked_card)

lemma count_list_drop_Suc:
  "k < length s \<Longrightarrow>
     count_list (drop k s) c = (if s ! k = c then 1 else 0) + count_list (drop (Suc k) s) c"
  by (subst Cons_nth_drop_Suc [symmetric]) auto

lemma pass1_inv_init:
  "pass1_inv guess secret 0 (replicate (length secret) Absent, count_chars secret Map.empty)"
  by (auto simp: pass1_inv_def marked_replicate count_chars_empty get_or_def dom_def)

lemma pass1_inv_step:
  assumes inv: "pass1_inv guess secret k s" and k: "k < length secret"
    and len: "length guess = length secret"
  shows "\<exists>s'. pass1_step guess secret k s = Inr s' \<and> pass1_inv guess secret (Suc k) s'"
proof -
  obtain fb cnt where s: "s = (fb, cnt)" by (cases s)
  from inv s have lfb: "length fb = length secret"
    and fbk: "\<forall>i < length secret.
                fb ! i = (if i < k \<and> guess ! i = secret ! i then Correct else Absent)"
    and dm: "dom cnt = set secret"
    and phi: "\<forall>c. int (marked guess fb c) + get_or cnt c 0 = int (count_list secret c)"
    and low: "\<forall>c. int (count_list (drop k secret) c) \<le> get_or cnt c 0"
    by (auto simp: pass1_inv_def)
  have absent: "fb ! k = Absent" using fbk k by simp
  show ?thesis
  proof (cases "guess ! k = secret ! k")
    case False
    have "pass1_step guess secret k s = Inr s"
      using False k len s by (simp add: pass1_step_def)
    moreover have "int (count_list (drop (Suc k) secret) c) \<le> get_or cnt c 0" for c
    proof -
      have "count_list (drop (Suc k) secret) c \<le> count_list (drop k secret) c"
        using k by (simp add: count_list_drop_Suc)
      then show ?thesis using low [rule_format, of c] by linarith
    qed
    then have "pass1_inv guess secret (Suc k) s"
      unfolding pass1_inv_def s using lfb fbk dm phi False
      by (auto simp: less_Suc_eq)
    ultimately show ?thesis by blast
  next
    case True
    have "secret ! k \<in> set secret" using k by simp
    then obtain n where n: "cnt (guess ! k) = Some n"
      using dm True by (metis domD)
    let ?s' = "(fb[k := Correct], cnt(guess ! k \<mapsto> n - 1))"
    have step: "pass1_step guess secret k s = Inr ?s'"
      using True k len s n by (simp add: pass1_step_def)
    have g: "\<And>c. get_or (cnt(guess ! k \<mapsto> n - 1)) c 0
                 = get_or cnt c 0 - (if guess ! k = c then 1 else 0)"
      using n by (auto simp: get_or_def)
    have m: "\<And>c. marked guess (fb[k := Correct]) c
                 = marked guess fb c + (if guess ! k = c then 1 else 0)"
      using marked_update [of k fb Correct guess] absent k lfb by simp
    have "pass1_inv guess secret (Suc k) ?s'"
      unfolding pass1_inv_def
    proof (simp only: prod.case, intro conjI allI impI)
      show "length (fb[k := Correct]) = length secret" using lfb by simp
    next
      fix i assume "i < length secret"
      then show "fb[k := Correct] ! i
                   = (if i < Suc k \<and> guess ! i = secret ! i then Correct else Absent)"
        using fbk [rule_format, of i] lfb True k
        by (cases "i = k") (auto simp: less_Suc_eq)
    next
      show "dom (cnt(guess ! k \<mapsto> n - 1)) = set secret"
        using dm n by auto
    next
      fix c
      show "int (marked guess (fb[k := Correct]) c) + get_or (cnt(guess ! k \<mapsto> n - 1)) c 0
              = int (count_list secret c)"
        using phi [rule_format, of c] by (simp add: g m)
    next
      fix c
      show "int (count_list (drop (Suc k) secret) c) \<le> get_or (cnt(guess ! k \<mapsto> n - 1)) c 0"
      proof -
        have "int (count_list (drop k secret) c) =
                (if guess ! k = c then 1 else 0) + int (count_list (drop (Suc k) secret) c)"
          using True k by (simp add: count_list_drop_Suc)
        then show ?thesis
          using low [rule_format, of c] unfolding g by (simp split: if_splits)
      qed
    qed
    with step show ?thesis by blast
  qed
qed

lemma pass1_loop:
  assumes len: "length guess = length secret"
  shows "k \<le> length secret \<Longrightarrow>
    \<exists>s'. for_range (pass1_step guess secret) [0..<k]
            (replicate (length secret) Absent, count_chars secret Map.empty) = Inr s'
          \<and> pass1_inv guess secret k s'"
proof (induction k)
  case 0
  show ?case by (simp add: pass1_inv_init)
next
  case (Suc k)
  then obtain s1 where s1: "for_range (pass1_step guess secret) [0..<k]
            (replicate (length secret) Absent, count_chars secret Map.empty) = Inr s1"
    and inv: "pass1_inv guess secret k s1" by auto
  from pass1_inv_step [OF inv _ len] Suc.prems
  obtain s2 where "pass1_step guess secret k s1 = Inr s2" "pass1_inv guess secret (Suc k) s2"
    by auto
  then show ?case using s1 by (simp add: for_range_append)
qed

lemma pass1_inv_pass2_inv:
  assumes "pass1_inv guess secret (length secret) s"
  shows "pass2_inv guess secret 0 s"
proof -
  obtain fb cnt where s: "s = (fb, cnt)" by (cases s)
  from assms s have lfb: "length fb = length secret"
    and fbk: "\<forall>i < length secret. fb ! i = (if guess ! i = secret ! i then Correct else Absent)"
    and phi: "\<forall>c. int (marked guess fb c) + get_or cnt c 0 = int (count_list secret c)"
    and low: "\<forall>c. 0 \<le> get_or cnt c 0"
    by (auto simp: pass1_inv_def)
  show ?thesis
    unfolding pass2_inv_def s using lfb fbk phi low by auto
qed

lemma remaining_count_update:
  assumes "k < length fb" and "fb ! k = Absent" and "i \<le> k"
  shows "remaining_count guess secret (fb[k := Present]) i = remaining_count guess secret fb i"
proof -
  have "filter (\<lambda>j. guess ! j = guess ! i
                   \<and> (fb[k := Present] ! j = Correct \<or> (j < i \<and> fb[k := Present] ! j = Present)))
          [0..<length fb]
        = filter (\<lambda>j. guess ! j = guess ! i
                   \<and> (fb ! j = Correct \<or> (j < i \<and> fb ! j = Present)))
          [0..<length fb]"
  proof (rule filter_cong [OF refl])
    fix j assume "j \<in> set [0..<length fb]"
    then show "(guess ! j = guess ! i
                  \<and> (fb[k := Present] ! j = Correct \<or> (j < i \<and> fb[k := Present] ! j = Present)))
             = (guess ! j = guess ! i \<and> (fb ! j = Correct \<or> (j < i \<and> fb ! j = Present)))"
      using assms by (cases "j = k") auto
  qed
  then show ?thesis by (simp add: remaining_count_def)
qed

lemma remaining_count_marked:
  assumes "\<forall>j < length fb. k \<le> j \<longrightarrow> fb ! j \<noteq> Present"
  shows "remaining_count guess secret fb k
           = int (count_list secret (guess ! k)) - int (marked guess fb (guess ! k))"
proof -
  have "filter (\<lambda>j. guess ! j = guess ! k \<and> (fb ! j = Correct \<or> (j < k \<and> fb ! j = Present)))
          [0..<length fb]
        = filter (\<lambda>j. guess ! j = guess ! k \<and> fb ! j \<noteq> Absent) [0..<length fb]"
  proof (rule filter_cong [OF refl])
    fix j assume "j \<in> set [0..<length fb]"
    then have "j < length fb" by simp
    with assms have "fb ! j = Present \<longrightarrow> j < k" by (meson not_le)
    then show "(guess ! j = guess ! k \<and> (fb ! j = Correct \<or> (j < k \<and> fb ! j = Present)))
             = (guess ! j = guess ! k \<and> fb ! j \<noteq> Absent)"
      by (cases "fb ! j") auto
  qed
  then show ?thesis by (simp add: remaining_count_def marked_def)
qed

lemma pass2_inv_step:
  assumes inv: "pass2_inv guess secret k s" and k: "k < length secret"
    and len: "length guess = length secret"
  shows "\<exists>s'. pass2_step guess secret k s = Inr s' \<and> pass2_inv guess secret (Suc k) s'"
proof -
  obtain fb cnt where s: "s = (fb, cnt)" by (cases s)
  from inv s have lfb: "length fb = length secret"
    and cor: "\<forall>i < length secret. (fb ! i = Correct) = (guess ! i = secret ! i)"
    and npr: "\<forall>i < length secret. k \<le> i \<longrightarrow> fb ! i \<noteq> Present"
    and rule: "\<forall>i < k. guess ! i \<noteq> secret ! i \<longrightarrow>
                 fb ! i = (if 0 < remaining_count guess secret fb i then Present else Absent)"
    and phi: "\<forall>c. int (marked guess fb c) + get_or cnt c 0 = int (count_list secret c)"
    and low: "\<forall>c. 0 \<le> get_or cnt c 0"
    by (auto simp: pass2_inv_def)
  have rem: "remaining_count guess secret fb k = get_or cnt (guess ! k) 0"
    using remaining_count_marked [of fb k guess secret] npr lfb phi [rule_format, of "guess ! k"]
    by simp
  have insec: "guess ! k \<in> set secret" if "0 < get_or cnt (guess ! k) 0"
  proof (rule ccontr)
    assume "guess ! k \<notin> set secret"
    then have "count_list secret (guess ! k) = 0" by (simp add: count_list_0_iff)
    with phi [rule_format, of "guess ! k"] that show False by simp
  qed
  show ?thesis
  proof (cases "fb ! k \<noteq> Correct \<and> guess ! k \<in> set secret \<and> get_or cnt (guess ! k) 0 > 0")
    case False
    then have step: "pass2_step guess secret k s = Inr s"
      using k len s by (auto simp: pass2_step_def)
    have atk: "fb ! k = (if 0 < remaining_count guess secret fb k then Present else Absent)"
      if "guess ! k \<noteq> secret ! k"
    proof -
      have nc: "fb ! k \<noteq> Correct" using that cor k by simp
      then have "fb ! k = Absent" using npr k by (cases "fb ! k") auto
      moreover have "\<not> 0 < get_or cnt (guess ! k) 0" using False nc insec by blast
      ultimately show ?thesis using rem by simp
    qed
    have "\<forall>i < Suc k. guess ! i \<noteq> secret ! i \<longrightarrow>
            fb ! i = (if 0 < remaining_count guess secret fb i then Present else Absent)"
      using rule atk by (auto simp: less_Suc_eq)
    then have "pass2_inv guess secret (Suc k) s"
      unfolding pass2_inv_def s using lfb cor npr phi low by auto
    with step show ?thesis by blast
  next
    case True
    then obtain n where n: "cnt (guess ! k) = Some n" and npos: "0 < n"
      by (auto simp: get_or_def split: option.splits)
    have absent: "fb ! k = Absent"
      using True npr k by (cases "fb ! k") auto
    have neq: "guess ! k \<noteq> secret ! k"
      using True cor k by auto
    have klt: "k < length fb" using k lfb by simp
    let ?s' = "(fb[k := Present], cnt(guess ! k \<mapsto> n - 1))"
    have step: "pass2_step guess secret k s = Inr ?s'"
      using True k len s n by (simp add: pass2_step_def)
    have g: "\<And>c. get_or (cnt(guess ! k \<mapsto> n - 1)) c 0
                 = get_or cnt c 0 - (if guess ! k = c then 1 else 0)"
      using n by (auto simp: get_or_def)
    have m: "\<And>c. marked guess (fb[k := Present]) c
                 = marked guess fb c + (if guess ! k = c then 1 else 0)"
      using marked_update [of k fb Present guess] absent k lfb by simp
    have "pass2_inv guess secret (Suc k) ?s'"
      unfolding pass2_inv_def
    proof (simp only: prod.case, intro conjI allI impI)
      show "length (fb[k := Present]) = length secret" using lfb by simp
    next
      fix i assume "i < length secret"
      then show "(fb[k := Present] ! i = Correct) = (guess ! i = secret ! i)"
        using cor [rule_format, of i] lfb neq k
        by (cases "i = k") auto
    next
      fix i assume "i < length secret" "Suc k \<le> i"
      then show "fb[k := Present] ! i \<noteq> Present"
        using npr [rule_format, of i] by simp
    next
      fix i assume i: "i < Suc k" and ne: "guess ! i \<noteq> secret ! i"
      have same: "remaining_count guess secret (fb[k := Present]) i
                    = remaining_count guess secret fb i"
        using remaining_count_update [OF klt absent, of i] i by simp
      show "fb[k := Present] ! i
              = (if 0 < remaining_count guess secret (fb[k := Present]) i then Present else Absent)"
      proof (cases "i = k")
        case True
        then show ?thesis using same rem \<open>fb ! k \<noteq> Correct \<and> guess ! k \<in> set secret
            \<and> get_or cnt (guess ! k) 0 > 0\<close> klt by simp
      next
        case False
        then have "i < k" using i by simp
        then show ?thesis using rule [rule_format, of i] ne same False by simp
      qed
    next
      fix c
      show "int (marked guess (fb[k := Present]) c) + get_or (cnt(guess ! k \<mapsto> n - 1)) c 0
              = int (count_list secret c)"
        using phi [rule_format, of c] by (simp add: g m)
    next
      fix c
      show "0 \<le> get_or (cnt(guess ! k \<mapsto> n - 1)) c 0"
      proof (cases "guess ! k = c")
        case True
        then have "get_or cnt c 0 = n" using n by (simp add: get_or_def)
        then show ?thesis using npos True unfolding g by simp
      next
        case False
        then show ?thesis using low [rule_format, of c] unfolding g by simp
      qed
    qed
    with step show ?thesis by blast
  qed
qed

lemma pass2_loop:
  assumes len: "length guess = length secret" and inv0: "pass2_inv guess secret 0 s0"
  shows "k \<le> length secret \<Longrightarrow>
    \<exists>s'. for_range (pass2_step guess secret) [0..<k] s0 = Inr s' \<and> pass2_inv guess secret k s'"
proof (induction k)
  case 0
  show ?case by (simp add: inv0)
next
  case (Suc k)
  then obtain s1 where s1: "for_range (pass2_step guess secret) [0..<k] s0 = Inr s1"
    and inv: "pass2_inv guess secret k s1" by auto
  from pass2_inv_step [OF inv _ len] Suc.prems
  obtain s2 where "pass2_step guess secret k s1 = Inr s2" "pass2_inv guess secret (Suc k) s2"
    by auto
  then show ?case using s1 by (simp add: for_range_append)
qed

lemma check_wordle_guess_inv:
  assumes len: "length guess = length secret"
  shows "\<exists>fb cnt. check_wordle_guess guess secret = Inr fb
           \<and> pass2_inv guess secret (length secret) (fb, cnt)"
proof -
  from pass1_loop [OF len, of "length secret"]
  obtain s1 where s1: "for_range (pass1_step guess secret) [0..<length secret]
            (replicate (length secret) Absent, count_chars secret Map.empty) = Inr s1"
    and inv1: "pass1_inv guess secret (length secret) s1" by auto
  from pass2_loop [OF len pass1_inv_pass2_inv [OF inv1], of "length secret"]
  obtain s2 where s2: "for_range (pass2_step guess secret) [0..<length secret] s1 = Inr s2"
    and inv2: "pass2_inv guess secret (length secret) s2" by auto
  obtain fb cnt where "s2 = (fb, cnt)" by (cases s2)
  then show ?thesis
    using s1 s2 inv2 by (auto simp: check_wordle_guess_def)
qed

lemma paper_apple_feedback:
  "check_wordle_guess ''PAPER'' ''APPLE'' = Inr [Present, Present, Correct, Present, Absent]"
  by code_simp

lemma paper_apple_marked:
  "marked ''PAPER'' [Present, Present, Correct, Present, Absent] CHR ''P'' = 2"
  by code_simp

text \<open>
  C1, as the code has it. For a guess and a secret of equal length the evaluator returns
  a feedback of that length such that
  \<^item> pass 1: a position is marked correct exactly when guess and secret agree there, and
    each such position consumes one occurrence of its letter;
  \<^item> pass 2: a position that is not correct is marked present when the remaining count of
    its letter (the occurrences in the secret, less the correct positions of the letter,
    less the earlier positions of the letter marked present) is positive, and absent
    otherwise;
  \<^item> for every letter the number of positions of the guess that hold it and are marked
    correct or present is at most the number of its occurrences in the secret.

  For the secret APPLE and the guess PAPER the feedback is present, present, correct,
  present, absent: both P of the guess are marked, one correct and one present, as many
  as the secret has.
\<close>

theorem check_wordle_guess_letter_bound:
  assumes "length guess = length secret"
  shows "(\<exists>fb. check_wordle_guess guess secret = Inr fb
            \<and> length fb = length secret
            \<and> (\<forall>i < length secret. (fb ! i = Correct) = (guess ! i = secret ! i))
            \<and> (\<forall>i < length secret. guess ! i \<noteq> secret ! i \<longrightarrow>
                  fb ! i = (if 0 < remaining_count guess secret fb i then Present else Absent))
            \<and> (\<forall>c. marked guess fb c \<le> count_list secret c))
         \<and> check_wordle_guess ''PAPER'' ''APPLE''
             = Inr [Present, Present, Correct, Present, Absent]
         \<and> marked ''PAPER'' [Present, Present, Correct, Present, Absent] CHR ''P''
             = count_list ''APPLE'' CHR ''P''"
proof -
  from check_wordle_guess_inv [OF assms]
  obtain fb cnt where r: "check_wordle_guess guess secret = Inr fb"
    and inv: "pass2_inv guess secret (length secret) (fb, cnt)" by blast
  have "marked guess fb c \<le> count_list secret c" for c
  proof -
    from inv have "int (marked guess fb c) + get_or cnt c 0 = int (count_list secret c)"
      and "0 \<le> get_or cnt c 0"
      by (auto simp: pass2_inv_def)
    then show ?thesis by linarith
  qed
  with r inv have "\<exists>fb. check_wordle_guess guess secret = Inr fb
            \<and> length fb = length secret
            \<and> (\<forall>i < length secret. (fb ! i = Correct) = (guess ! i = secret ! i))
            \<and> (\<forall>i < length secret. guess ! i \<noteq> secret ! i \<longrightarrow>
                  fb ! i = (if 0 < remaining_count guess secret fb i then Present else Absent))
            \<and> (\<forall>c. marked guess fb c \<le> count_list secret c)"
    by (auto simp: pass2_inv_def)
  then show ?thesis
    by (simp add: paper_apple_feedback paper_apple_marked)
qed

text \<open>
  The secret APPLE has one E. Of the two E of the guess EEXXX the first is marked present,
  with a remaining count of 1, and the second absent, with a remaining count of 0.
\<close>

theorem check_wordle_guess_letter_bound_witness:
  "length ''EEXXX'' = length ''APPLE''
   \<and> check_wordle_guess ''EEXXX'' ''APPLE'' = Inr [Present, Absent, Absent, Absent, Absent]
   \<and> remaining_count ''EEXXX'' ''APPLE'' [Present, Absent, Absent, Absent, Absent] 0 = 1
   \<and> remaining_count ''EEXXX'' ''APPLE'' [Present, Absent, Absent, Absent, Absent] 1 = 0
   \<and> marked ''EEXXX'' [Present, Absent, Absent, Absent, Absent] CHR ''E'' = 1
   \<and> count_list ''APPLE'' CHR ''E'' = 1"
proof -
  let ?fb = "[Present, Absent, Absent, Absent, Absent]"
  have len: "length ''EEXXX'' = length ''APPLE''" by simp
  from check_wordle_guess_letter_bound [OF len]
  obtain fb where fb: "check_wordle_guess ''EEXXX'' ''APPLE'' = Inr fb"
    and l: "length fb = length ''APPLE''"
    and cor: "\<forall>i < length ''APPLE''. (fb ! i = Correct) = (''EEXXX'' ! i = ''APPLE'' ! i)"
    and rule: "\<forall>i < length ''APPLE''. ''EEXXX'' ! i \<noteq> ''APPLE'' ! i \<longrightarrow>
                 fb ! i = (if 0 < remaining_count ''EEXXX'' ''APPLE'' fb i then Present else Absent)"
    and bound: "\<forall>c. marked ''EEXXX'' fb c \<le> count_list ''APPLE'' c"
    by blast
  have ev: "check_wordle_guess ''EEXXX'' ''APPLE'' = Inr ?fb" by code_simp
  with fb have eq: "fb = ?fb" by simp
  have r0: "remaining_count ''EEXXX'' ''APPLE'' ?fb 0 = 1" by code_simp
  have r1: "remaining_count ''EEXXX'' ''APPLE'' ?fb 1 = 0" by code_simp
  have mk: "marked ''EEXXX'' ?fb CHR ''E'' = 1" by code_simp
  have "marked ''EEXXX'' ?fb CHR ''E'' \<le> count_list ''APPLE'' CHR ''E''"
    using bound eq by blast
  with len ev r0 r1 mk show ?thesis by simp
qed

text \<open>
  The claim's example fails: for the secret APPLE and the guess PAPER two P are marked
  correct or present, not exactly one.
\<close>

theorem paper_apple_marks_two_P:
  "check_wordle_guess ''PAPER'' ''APPLE'' = Inr [Present, Present, Correct, Present, Absent]
   \<and> marked ''PAPER'' [Present, Present, Correct, Present, Absent] CHR ''P'' = 2
   \<and> marked ''PAPER'' [Present, Present, Correct, Present, Absent] CHR ''P'' \<noteq> 1"
  by (simp add: paper_apple_feedback paper_apple_marked)

subsection \<open>Normalising a string argument\<close>
















subsection \<open>The timer\<close>

text \<open>
  C5. When the room of an expiring timer is not in the registry or is not in the state
  playing, the expiry returns the server state as it was: no finish time, no result and
  no timer entry is changed and nothing is sent.
\<close>

theorem timer_game_not_playing:
  assumes "\<forall>r. map_of (game_rooms st) room_code = Some r \<longrightarrow> state r \<noteq> Playing"
  shows "timer_game room_code now st = (None, st)"
  using assms by (auto simp: timer_game_def split: option.splits)

theorem timer_game_not_playing_witness:
  "timer_game ''ABCDE'' (\<lambda>pid. 1180) (example_server (example_room\<lparr>state := Finished\<rparr>))
     = (None, example_server (example_room\<lparr>state := Finished\<rparr>))
   \<and> timer_game ''ABCDE'' (\<lambda>pid. 1180) initial_server = (None, initial_server)"
proof -
  have a: "\<forall>r. map_of (game_rooms (example_server (example_room\<lparr>state := Finished\<rparr>))) ''ABCDE'' = Some r
             \<longrightarrow> state r \<noteq> Playing"
    by (simp add: example_server_def example_room_def)
  have b: "\<forall>r. map_of (game_rooms initial_server) ''ABCDE'' = Some r \<longrightarrow> state r \<noteq> Playing"
    by (simp add: initial_server_def)
  from timer_game_not_playing [OF a] timer_game_not_playing [OF b]
  show ?thesis by simp
qed

subsection \<open>Creating a room\<close>

text \<open>
  C9. Whatever the registry holds, after \<open>handle_create_room\<close> it maps the generated code
  to a new waiting room whose only player is the creator; a code that was in the registry
  keeps its single entry, so the room it named is replaced.
\<close>

theorem create_room_replaces:
  "map_of (game_rooms (snd (handle_create_room client_id room_code w st))) room_code
     = Some \<lparr>players = [client_id],
             word = py_upper w,
             state = Waiting,
             start_time = None,
             guesses = [client_id \<mapsto> []],
             finish_times = [client_id \<mapsto> None],
             results = [client_id \<mapsto> None]\<rparr>
   \<and> map fst (game_rooms (snd (handle_create_room client_id room_code w st)))
       = (if room_code \<in> set (map fst (game_rooms st))
          then map fst (game_rooms st)
          else map fst (game_rooms st) @ [room_code])"
  by (auto simp: handle_create_room_def put_room_def send_message_def Let_def update_conv'
        update_keys split: option.splits)

theorem create_room_replaces_witness:
  "map_of (game_rooms (example_server example_room)) ''ABCDE'' = Some example_room
   \<and> game_rooms (snd (handle_create_room ''c3'' ''ABCDE'' ''TIGER'' (example_server example_room)))
     = [(''ABCDE'',
         \<lparr>players = [''c3''],
          word = ''TIGER'',
          state = Waiting,
          start_time = None,
          guesses = [''c3'' \<mapsto> []],
          finish_times = [''c3'' \<mapsto> None],
          results = [''c3'' \<mapsto> None]\<rparr>)]"
proof -
  have u: "py_upper ''TIGER'' = ''TIGER''" by code_simp
  from create_room_replaces [of "''c3''" "''ABCDE''" "''TIGER''" "example_server example_room"]
  show ?thesis
    by (simp add: u handle_create_room_def put_room_def send_message_def example_server_def
          split: option.splits)
qed

subsection \<open>The welcome message\<close>

text \<open>
  C6, as the code has it. A new connection is sent one welcome message, with the client
  id and a \<open>server_info\<close> object of three entries: the word length 5, the maximum of 6
  guesses and the round duration of 180 seconds; the client is then registered without a
  room.
\<close>

theorem welcome_message_content:
  "sent (handle_client_connect client_id st)
     = sent st @ [(client_id, Msg ''welcome''
                     [(''message'', JStr ''Vocly Server - AsyncIO''),
                      (''client_id'', JStr client_id),
                      (''server_info'', JObj server_info)])]
   \<and> server_info
       = [(''word_length'', JInt 5), (''max_guesses'', JInt 6), (''game_duration'', JInt 180)]
   \<and> int WORD_LENGTH = 5 \<and> int MAX_GUESSES = 6 \<and> int GAME_DURATION = 180
   \<and> ALL_CLIENTS (handle_client_connect client_id st) client_id = Some None"
  by (simp add: handle_client_connect_def send_message_def server_info_def
        WORD_LENGTH_def MAX_GUESSES_def GAME_DURATION_def)

text \<open>
  The welcome message of the code has no entry for the size of the word bank (50).
\<close>

theorem welcome_without_word_bank_size:
  "sent (handle_client_connect ''c1'' initial_server)
     = [(''c1'', Msg ''welcome''
           [(''message'', JStr ''Vocly Server - AsyncIO''),
            (''client_id'', JStr ''c1''),
            (''server_info'',
               JObj [(''word_length'', JInt 5), (''max_guesses'', JInt 6),
                     (''game_duration'', JInt 180)])])]
   \<and> length WORD_BANK = 50
   \<and> JInt (int (length WORD_BANK)) \<notin> set (map snd server_info)"
  by (simp add: handle_client_connect_def send_message_def server_info_def initial_server_def
        WORD_LENGTH_def MAX_GUESSES_def GAME_DURATION_def WORD_BANK_def)

subsection \<open>Round-end determination\<close>

lemma all_finished_True_iff:
  "(all_finished ft ps = Inr True) = (\<forall>p \<in> set ps. \<exists>t. ft p = Some (Some t))"
  by (induction ps) (auto split: option.splits)

lemma all_finished_False:
  "\<forall>p \<in> set ps. ft p \<noteq> None \<Longrightarrow> \<exists>p \<in> set ps. ft p = Some None \<Longrightarrow>
     all_finished ft ps = Inr False"
  by (induction ps) (auto split: option.splits)

lemma map_of_put_room [simp]:
  "map_of (game_rooms (put_room room_code r st)) room_code = Some r"
  by (simp add: put_room_def update_conv')

lemma game_rooms_stop_timer [simp]: "game_rooms (stop_timer room_code st) = game_rooms st"
  by (simp add: stop_timer_def)

lemma game_rooms_broadcast [simp]:
  "game_rooms (broadcast_to_room room_code mt data ex st) = game_rooms st"
  by (simp add: broadcast_to_room_def split: option.splits)

lemma game_rooms_send [simp]: "game_rooms (send_message client_id mt data st) = game_rooms st"
  by (simp add: send_message_def)

lemma check_game_end_rooms:
  assumes "map_of (game_rooms st) room_code = Some r" and "state r = Playing"
  shows "game_rooms (snd (check_game_end room_code st))
           = (if all_finished (finish_times r) (players r) = Inr True
              then game_rooms (put_room room_code (r\<lparr>state := Finished\<rparr>) st)
              else game_rooms st)"
  using assms
  by (simp add: check_game_end_def Let_def
        split: option.splits list.splits sum.splits bool.splits prod.splits)

text \<open>
  C2. The round-end check on a room that is playing leaves the room finished exactly when
  every player of the room has a finish time that is not \<open>None\<close>. When every player has
  an entry and one of them has no finish time yet, the check returns the server state as
  it was: the room stays playing and nothing, so no \<open>game_over\<close>, is sent.
\<close>

theorem round_finishes_iff_all_finished:
  assumes "map_of (game_rooms st) room_code = Some r" and "state r = Playing"
  shows "(\<exists>r'. map_of (game_rooms (snd (check_game_end room_code st))) room_code = Some r'
            \<and> ((state r' = Finished)
                 = (\<forall>p \<in> set (players r). \<exists>t. finish_times r p = Some (Some t))))
         \<and> ((\<forall>p \<in> set (players r). finish_times r p \<noteq> None)
              \<and> (\<exists>p \<in> set (players r). finish_times r p = Some None)
            \<longrightarrow> check_game_end room_code st = (None, st))"
proof (intro conjI impI)
  show "\<exists>r'. map_of (game_rooms (snd (check_game_end room_code st))) room_code = Some r'
            \<and> ((state r' = Finished)
                 = (\<forall>p \<in> set (players r). \<exists>t. finish_times r p = Some (Some t)))"
  proof (cases "all_finished (finish_times r) (players r) = Inr True")
    case True
    then show ?thesis
      using assms check_game_end_rooms [OF assms] all_finished_True_iff [of "finish_times r" "players r"]
      by simp
  next
    case False
    then show ?thesis
      using assms check_game_end_rooms [OF assms] all_finished_True_iff [of "finish_times r" "players r"]
      by simp
  qed
next
  assume "(\<forall>p \<in> set (players r). finish_times r p \<noteq> None)
              \<and> (\<exists>p \<in> set (players r). finish_times r p = Some None)"
  then have "all_finished (finish_times r) (players r) = Inr False"
    by (simp add: all_finished_False)
  then show "check_game_end room_code st = (None, st)"
    using assms by (simp add: check_game_end_def)
qed

text \<open>
  C3. When both players of a playing room have a finish time and a result, the round-end
  check broadcasts one \<open>game_over\<close> whose result is: a draw that shows the secret word
  when both lost; the win of the one player who won when the other lost, whatever the two
  times; and when both won, the win of the player with the strictly lower finish time,
  or a draw when the times are equal.
\<close>

theorem winner_determination:
  assumes "map_of (game_rooms st) room_code = Some r" and "state r = Playing"
    and "players r = [p1, p2]"
    and "finish_times r p1 = Some (Some t1)" and "finish_times r p2 = Some (Some t2)"
    and "results r p1 = Some (Some r1)" and "results r p2 = Some (Some r2)"
  shows "\<exists>v. check_game_end room_code st
               = (None,
                  broadcast_to_room room_code ''game_over''
                    [(''result'', JVerdict v), (''word'', JStr (word r))] None
                    (stop_timer room_code (put_room room_code (r\<lparr>state := Finished\<rparr>) st)))
           \<and> (r1 = Lost \<and> r2 = Lost \<longrightarrow> v = DrawBothLost (word r))
           \<and> (r1 = Won \<and> r2 = Lost \<longrightarrow> v = Player1Wins t1)
           \<and> (r1 = Lost \<and> r2 = Won \<longrightarrow> v = Player2Wins t2)
           \<and> (r1 = Won \<and> r2 = Won \<and> t1 < t2 \<longrightarrow> v = Player1Faster t1 t2)
           \<and> (r1 = Won \<and> r2 = Won \<and> t2 < t1 \<longrightarrow> v = Player2Faster t2 t1)
           \<and> (r1 = Won \<and> r2 = Won \<and> t1 = t2 \<longrightarrow> v = DrawTie t1)"
proof -
  have af: "all_finished (finish_times r) (players r) = Inr True"
    using assms by simp
  have "check_game_end room_code st
               = (None,
                  broadcast_to_room room_code ''game_over''
                    [(''result'', JVerdict (determine_winner (Some r1) (Some r2) t1 t2 (word r))),
                     (''word'', JStr (word r))] None
                    (stop_timer room_code (put_room room_code (r\<lparr>state := Finished\<rparr>) st)))"
    using assms af by (simp add: check_game_end_def Let_def)
  then show ?thesis
    by (auto simp: determine_winner_def)
qed


theorem round_finishes_iff_all_finished_witness:
  "map_of (game_rooms (example_server (example_room_with (Some 12.5) (Some Won) None None))) ''ABCDE''
     = Some (example_room_with (Some 12.5) (Some Won) None None)
   \<and> state (example_room_with (Some 12.5) (Some Won) None None) = Playing
   \<and> check_game_end ''ABCDE'' (example_server (example_room_with (Some 12.5) (Some Won) None None))
       = (None, example_server (example_room_with (Some 12.5) (Some Won) None None))
   \<and> sent (snd (check_game_end ''ABCDE''
              (example_server (example_room_with (Some 12.5) (Some Won) None None)))) = []"
proof -
  let ?r = "example_room_with (Some 12.5) (Some Won) None None"
  have a: "map_of (game_rooms (example_server ?r)) ''ABCDE'' = Some ?r"
    by (simp add: example_server_def)
  have b: "state ?r = Playing"
    by (simp add: example_room_with_def example_room_def)
  have c: "(\<forall>p \<in> set (players ?r). finish_times ?r p \<noteq> None)
            \<and> (\<exists>p \<in> set (players ?r). finish_times ?r p = Some None)"
    by (simp add: example_room_with_def example_room_def)
  from round_finishes_iff_all_finished [OF a b] c
  have d: "check_game_end ''ABCDE'' (example_server ?r) = (None, example_server ?r)"
    by blast
  have "sent (example_server ?r) = []" by (simp add: example_server_def)
  with a b d show ?thesis by simp
qed

theorem winner_determination_witness:
  "check_game_end ''ABCDE'' (example_server (example_room_with (Some 40) (Some Won) (Some 12.5) (Some Lost)))
     = (None,
        \<lparr>ALL_CLIENTS = [''c1'' \<mapsto> Some ''ABCDE'', ''c2'' \<mapsto> Some ''ABCDE''],
         game_rooms = [(''ABCDE'',
            (example_room_with (Some 40) (Some Won) (Some 12.5) (Some Lost))\<lparr>state := Finished\<rparr>)],
         active_timers = {},
         sent = [(''c1'', Msg ''game_over''
                     [(''result'', JVerdict (Player1Wins 40)), (''word'', JStr ''APPLE'')]),
                 (''c2'', Msg ''game_over''
                     [(''result'', JVerdict (Player1Wins 40)), (''word'', JStr ''APPLE'')])]\<rparr>)"
proof -
  let ?r = "example_room_with (Some 40) (Some Won) (Some 12.5) (Some Lost)"
  have a: "map_of (game_rooms (example_server ?r)) ''ABCDE'' = Some ?r"
    by (simp add: example_server_def)
  have b: "state ?r = Playing" and c: "players ?r = [''c1'', ''c2'']"
    and d: "finish_times ?r ''c1'' = Some (Some 40)" "finish_times ?r ''c2'' = Some (Some 12.5)"
    and e: "results ?r ''c1'' = Some (Some Won)" "results ?r ''c2'' = Some (Some Lost)"
    and w: "word ?r = ''APPLE''"
    by (simp_all add: example_room_with_def example_room_def)
  from winner_determination [OF a b c d e]
  obtain v where v: "check_game_end ''ABCDE'' (example_server ?r)
               = (None,
                  broadcast_to_room ''ABCDE'' ''game_over''
                    [(''result'', JVerdict v), (''word'', JStr (word ?r))] None
                    (stop_timer ''ABCDE'' (put_room ''ABCDE'' (?r\<lparr>state := Finished\<rparr>) (example_server ?r))))"
    and "v = Player1Wins 40"
    by blast
  then show ?thesis
    unfolding v w
    by (simp add: broadcast_to_room_def stop_timer_def put_room_def example_server_def
          receivers_def example_room_with_def example_room_def)
qed

subsection \<open>Timer expiry\<close>

lemma timeout_players_result:
  assumes "start_time r = Some t0"
  shows "\<forall>p \<in> set ps. finish_times r p \<noteq> None \<Longrightarrow>
    timeout_players now ps r =
      (None,
       r\<lparr>finish_times :=
            (\<lambda>p. if p \<in> set ps \<and> finish_times r p = Some None
                  then Some (Some (now p - t0)) else finish_times r p),
          results :=
            (\<lambda>p. if p \<in> set ps \<and> finish_times r p = Some None
                  then Some (Some Lost) else results r p)\<rparr>)"
  using assms
proof (induction ps arbitrary: r)
  case Nil
  show ?case by simp
next
  case (Cons q ps)
  from Cons.prems obtain v where v: "finish_times r q = Some v" by auto
  show ?case
  proof (cases v)
    case (Some t)
    with v Cons show ?thesis
      by (auto intro!: room.equality simp: fun_eq_iff)
  next
    case None
    let ?r' = "r\<lparr>finish_times := (finish_times r)(q \<mapsto> Some (now q - t0)),
                  results := (results r)(q \<mapsto> Some Lost)\<rparr>"
    have "\<forall>p \<in> set ps. finish_times ?r' p \<noteq> None" using Cons.prems by simp
    moreover have "start_time ?r' = Some t0" using Cons.prems by simp
    ultimately have "timeout_players now ps ?r' =
      (None,
       ?r'\<lparr>finish_times :=
            (\<lambda>p. if p \<in> set ps \<and> finish_times ?r' p = Some None
                  then Some (Some (now p - t0)) else finish_times ?r' p),
          results :=
            (\<lambda>p. if p \<in> set ps \<and> finish_times ?r' p = Some None
                  then Some (Some Lost) else results ?r' p)\<rparr>)"
      by (rule Cons.IH)
    with v None Cons.prems show ?thesis
      by (auto intro!: room.equality simp: fun_eq_iff)
  qed
qed

text \<open>
  C4, as the code has it. When the timer of a playing room expires (the room has its start
  time and every player an entry in \<open>finish_times\<close>), every player without a finish time
  gets the result lost and, as finish time, the time elapsed since the start of the round
  as \<open>time.time()\<close> reads it at that moment; the other players keep their finish time
  and result. Then the round-end check runs on that state, with the timer entry of the
  room removed, and leaves the room finished.
\<close>

theorem timer_expiry_marks_unfinished_lost:
  assumes "map_of (game_rooms st) room_code = Some r" and "state r = Playing"
    and "start_time r = Some t0"
    and "\<forall>p \<in> set (players r). finish_times r p \<noteq> None"
  shows "\<exists>r1. timer_game room_code now st
                = check_game_end room_code
                    ((put_room room_code r1 st)\<lparr>active_timers := active_timers st - {room_code}\<rparr>)
           \<and> state r1 = Playing \<and> players r1 = players r
           \<and> (\<forall>p \<in> set (players r). finish_times r p = Some None \<longrightarrow>
                 finish_times r1 p = Some (Some (now p - t0)) \<and> results r1 p = Some (Some Lost))
           \<and> (\<forall>p. p \<notin> set (players r) \<or> finish_times r p \<noteq> Some None \<longrightarrow>
                 finish_times r1 p = finish_times r p \<and> results r1 p = results r p)
           \<and> (\<exists>r2. map_of (game_rooms (snd (timer_game room_code now st))) room_code = Some r2
                 \<and> r2 = r1\<lparr>state := Finished\<rparr>)"
proof -
  let ?r1 = "r\<lparr>finish_times :=
            (\<lambda>p. if p \<in> set (players r) \<and> finish_times r p = Some None
                  then Some (Some (now p - t0)) else finish_times r p),
          results :=
            (\<lambda>p. if p \<in> set (players r) \<and> finish_times r p = Some None
                  then Some (Some Lost) else results r p)\<rparr>"
  let ?st2 = "(put_room room_code ?r1 st)\<lparr>active_timers := active_timers st - {room_code}\<rparr>"
  have tp: "timeout_players now (players r) r = (None, ?r1)"
    using timeout_players_result [OF assms(3) assms(4)] .
  have eq: "timer_game room_code now st = check_game_end room_code ?st2"
    using assms(1,2) tp
    by (auto simp: timer_game_def Let_def put_room_def)
  have m: "map_of (game_rooms ?st2) room_code = Some ?r1"
    by (simp add: put_room_def update_conv')
  have s: "state ?r1 = Playing" using assms(2) by simp
  have "\<forall>p \<in> set (players ?r1). \<exists>t. finish_times ?r1 p = Some (Some t)"
    using assms(4) by auto
  then have af: "all_finished (finish_times ?r1) (players ?r1) = Inr True"
    by (simp only: all_finished_True_iff)
  have "game_rooms (snd (check_game_end room_code ?st2))
          = game_rooms (put_room room_code (?r1\<lparr>state := Finished\<rparr>) ?st2)"
    using check_game_end_rooms [OF m s] af by simp
  then have fin: "map_of (game_rooms (snd (timer_game room_code now st))) room_code
                    = Some (?r1\<lparr>state := Finished\<rparr>)"
    using eq by simp
  show ?thesis
    apply (rule exI [where x = ?r1])
    using eq fin s by auto
qed

text \<open>
  The finish time a timed-out player gets is not the configured duration: a timer that
  fires 180.5 seconds after the start of the round records 180.5, not 180.
\<close>

theorem timer_expiry_records_elapsed_time:
  "map_option (\<lambda>r. (state r, finish_times r ''c1'', results r ''c1''))
     (map_of (game_rooms (snd (timer_game ''ABCDE'' (\<lambda>pid. 1180.5) (example_server example_room))))
        ''ABCDE'')
     = Some (Finished, Some (Some 180.5), Some (Some Lost))
   \<and> (180.5 :: real) \<noteq> real GAME_DURATION"
  apply (simp add: timer_game_def example_server_def example_room_def put_room_def Let_def
      check_game_end_def stop_timer_def broadcast_to_room_def receivers_def GAME_DURATION_def)
  done


theorem timer_expiry_marks_unfinished_lost_witness:
  "map_of (game_rooms (example_server (example_room_with (Some 12.5) (Some Won) None None))) ''ABCDE''
     = Some (example_room_with (Some 12.5) (Some Won) None None)
   \<and> map_option (\<lambda>r. (state r, finish_times r ''c1'', results r ''c1'',
                         finish_times r ''c2'', results r ''c2''))
       (map_of (game_rooms (snd (timer_game ''ABCDE'' (\<lambda>pid. 1180.5)
                  (example_server (example_room_with (Some 12.5) (Some Won) None None)))))
          ''ABCDE'')
     = Some (Finished, Some (Some 12.5), Some (Some Won), Some (Some 180.5), Some (Some Lost))"
proof -
  let ?r = "example_room_with (Some 12.5) (Some Won) None None"
  have a: "map_of (game_rooms (example_server ?r)) ''ABCDE'' = Some ?r"
    by (simp add: example_server_def)
  have b: "state ?r = Playing" and c: "start_time ?r = Some 1000"
    and d: "\<forall>p \<in> set (players ?r). finish_times ?r p \<noteq> None"
    by (simp_all add: example_room_with_def example_room_def)
  from timer_expiry_marks_unfinished_lost [OF a b c d, of "\<lambda>pid. 1180.5"]
  obtain r1 where r1: "map_of (game_rooms (snd (timer_game ''ABCDE'' (\<lambda>pid. 1180.5)
                          (example_server ?r)))) ''ABCDE'' = Some (r1\<lparr>state := Finished\<rparr>)"
    and un: "\<forall>p \<in> set (players ?r). finish_times ?r p = Some None \<longrightarrow>
                 finish_times r1 p = Some (Some (1180.5 - 1000)) \<and> results r1 p = Some (Some Lost)"
    and ke: "\<forall>p. p \<notin> set (players ?r) \<or> finish_times ?r p \<noteq> Some None \<longrightarrow>
                 finish_times r1 p = finish_times ?r p \<and> results r1 p = results ?r p"
    by blast
  have "finish_times r1 ''c2'' = Some (Some 180.5) \<and> results r1 ''c2'' = Some (Some Lost)"
    using un [rule_format, of "''c2''"] by (simp add: example_room_with_def example_room_def)
  moreover have "finish_times r1 ''c1'' = Some (Some 12.5) \<and> results r1 ''c1'' = Some (Some Won)"
    using ke [rule_format, of "''c1''"] by (simp add: example_room_with_def example_room_def)
  ultimately show ?thesis using a r1 by simp
qed

subsection \<open>Disconnect\<close>

lemma find_Some_member: "find P xs = Some x \<Longrightarrow> x \<in> set xs \<and> P x"
  by (induction xs) (auto split: if_splits)

lemma get_player_room_SomeD:
  assumes "get_player_room client_id st = Some (room_code, r)"
  shows "(room_code, r) \<in> set (game_rooms st) \<and> client_id \<in> set (players r)"
  using find_Some_member [OF assms [unfolded get_player_room_def]] by simp







text \<open>
  A write that raises: when the stream of the second player of the example room is lost,
  the disconnect of the first player stops the timer and raises in the broadcast, and
  the room and the client's entry stay.
\<close>

lemma cleanup_client_write_raises:
  "fst (cleanup_client (\<lambda>p. p = ''c2'') ''c1'' (example_server example_room))
     = Some ConnectionError
   \<and> map fst (game_rooms (snd (cleanup_client (\<lambda>p. p = ''c2'') ''c1''
                                  (example_server example_room)))) = [''ABCDE'']
   \<and> active_timers (snd (cleanup_client (\<lambda>p. p = ''c2'') ''c1''
                            (example_server example_room))) = {}
   \<and> ALL_CLIENTS (snd (cleanup_client (\<lambda>p. p = ''c2'') ''c1''
                          (example_server example_room))) ''c1'' = Some (Some ''ABCDE'')"
  by (simp add: cleanup_client_def get_player_room_def example_server_def example_room_def
        stop_timer_def broadcast_to_room_raising_def receivers_def)

subsection \<open>The room invariant\<close>

lemma word_bank_all: "list_all (\<lambda>w. length (py_upper w) = 5) WORD_BANK"
  unfolding WORD_BANK_def by code_simp

lemma word_bank_length: "w \<in> set WORD_BANK \<Longrightarrow> length (py_upper w) = WORD_LENGTH"
  using word_bank_all by (simp add: list_all_iff WORD_LENGTH_def)

lemma set_update_subset: "set (AList.update k v al) \<subseteq> insert (k, v) (set al)"
  by (induction al) auto

lemma rooms_inv_put_room:
  assumes "rooms_inv st" and "room_inv r"
  shows "rooms_inv (put_room room_code r st)"
  using assms set_update_subset [of room_code r "game_rooms st"]
  by (auto simp: rooms_inv_def put_room_def)

lemma rooms_inv_send: "rooms_inv (send_message client_id mt data st) = rooms_inv st"
  by (simp add: rooms_inv_def)

lemma rooms_inv_broadcast: "rooms_inv (broadcast_to_room room_code mt data ex st) = rooms_inv st"
  by (simp add: rooms_inv_def)

lemma rooms_inv_stop_timer: "rooms_inv (stop_timer room_code st) = rooms_inv st"
  by (simp add: rooms_inv_def)

lemma rooms_inv_timers: "rooms_inv (st\<lparr>active_timers := T\<rparr>) = rooms_inv st"
  by (simp add: rooms_inv_def)

lemma rooms_inv_clients: "rooms_inv (st\<lparr>ALL_CLIENTS := C\<rparr>) = rooms_inv st"
  by (simp add: rooms_inv_def)

lemmas rooms_inv_same_rooms =
  rooms_inv_send rooms_inv_broadcast rooms_inv_stop_timer rooms_inv_timers rooms_inv_clients

lemma rooms_inv_lookup:
  "rooms_inv st \<Longrightarrow> map_of (game_rooms st) room_code = Some r \<Longrightarrow> room_inv r"
  by (auto simp: rooms_inv_def dest: map_of_SomeD)

lemma rooms_inv_player_room:
  "rooms_inv st \<Longrightarrow> get_player_room client_id st = Some (room_code, r) \<Longrightarrow> room_inv r"
  by (auto simp: rooms_inv_def dest: get_player_room_SomeD)

lemma room_inv_state [simp]: "room_inv (r\<lparr>state := s\<rparr>) = room_inv r"
  by (simp add: room_inv_def)

lemma room_inv_start_time [simp]: "room_inv (r\<lparr>start_time := t\<rparr>) = room_inv r"
  by (simp add: room_inv_def)

lemma rooms_inv_check_game_end:
  assumes "rooms_inv st"
  shows "rooms_inv (snd (check_game_end room_code st))"
proof (cases "map_of (game_rooms st) room_code")
  case None
  then show ?thesis using assms by (simp add: check_game_end_def)
next
  case (Some r)
  show ?thesis
  proof (cases "state r = Playing")
    case False
    then show ?thesis using assms Some by (simp add: check_game_end_def)
  next
    case True
    have "room_inv (r\<lparr>state := Finished\<rparr>)"
      using rooms_inv_lookup [OF assms Some] by simp
    then have "rooms_inv (put_room room_code (r\<lparr>state := Finished\<rparr>) st)"
      using assms by (rule rooms_inv_put_room [rotated])
    then show ?thesis
      using assms check_game_end_rooms [OF Some True]
      by (simp add: rooms_inv_def)
  qed
qed

lemma room_inv_timeout_players:
  "room_inv r \<Longrightarrow> room_inv (snd (timeout_players now ps r))"
proof (induction ps arbitrary: r)
  case Nil
  then show ?case by simp
next
  case (Cons q ps)
  have "room_inv (r\<lparr>finish_times := (finish_times r)(q \<mapsto> v),
                    results := (results r)(q \<mapsto> u)\<rparr>)" for v u
    using Cons.prems by (auto simp: room_inv_def)
  with Cons show ?case
    by (auto split: option.splits)
qed

lemma room_inv_reset_players:
  "room_inv r \<Longrightarrow> room_inv (reset_players ps r)"
proof (induction ps arbitrary: r)
  case Nil
  then show ?case by simp
next
  case (Cons q ps)
  have "room_inv (r\<lparr>finish_times := (finish_times r)(q \<mapsto> None),
                    results := (results r)(q \<mapsto> None),
                    guesses := (guesses r)(q \<mapsto> [])\<rparr>)"
    using Cons.prems by (auto simp: room_inv_def)
  then show ?case by (simp add: Cons.IH)
qed

lemma rooms_inv_finish_player:
  assumes "rooms_inv st" and "room_inv r"
  shows "rooms_inv (snd (finish_player client_id room_code r res now st))"
proof (cases "start_time r")
  case None
  then show ?thesis using assms by (simp add: finish_player_def)
next
  case (Some t0)
  have "room_inv (r\<lparr>finish_times := (finish_times r)(client_id \<mapsto> Some (now - t0)),
                    results := (results r)(client_id \<mapsto> Some res)\<rparr>)"
    using assms(2) by (auto simp: room_inv_def)
  then have "rooms_inv (put_room room_code
                 (r\<lparr>finish_times := (finish_times r)(client_id \<mapsto> Some (now - t0)),
                    results := (results r)(client_id \<mapsto> Some res)\<rparr>) st)"
    using assms(1) by (rule rooms_inv_put_room [rotated])
  then have "rooms_inv (send_message client_id mt data (put_room room_code
                 (r\<lparr>finish_times := (finish_times r)(client_id \<mapsto> Some (now - t0)),
                    results := (results r)(client_id \<mapsto> Some res)\<rparr>) st))" for mt data
    by (simp add: rooms_inv_same_rooms)
  then show ?thesis
    using Some by (simp add: finish_player_def Let_def rooms_inv_check_game_end)
qed

lemma rooms_inv_create_room:
  assumes "rooms_inv st" and "w \<in> set WORD_BANK"
  shows "rooms_inv (snd (handle_create_room client_id room_code w st))"
proof -
  let ?r = "\<lparr>players = [client_id], word = py_upper w, state = Waiting, start_time = None,
             guesses = [client_id \<mapsto> []], finish_times = [client_id \<mapsto> None],
             results = [client_id \<mapsto> None]\<rparr>"
  have "room_inv ?r"
    using word_bank_length [OF assms(2)] by (simp add: room_inv_def)
  then have "rooms_inv (put_room room_code ?r st)"
    using assms(1) by (rule rooms_inv_put_room [rotated])
  then show ?thesis
    by (auto simp: handle_create_room_def Let_def rooms_inv_def put_room_def send_message_def
          split: option.splits)
qed

lemma rooms_inv_join_room:
  assumes "rooms_inv st"
  shows "rooms_inv (snd (handle_join_room client_id room_code0 st))"
proof -
  let ?rc = "py_strip (py_upper room_code0)"
  show ?thesis
  proof (cases "map_of (game_rooms st) ?rc")
    case None
    then show ?thesis
      using assms by (simp add: handle_join_room_def rooms_inv_same_rooms)
  next
    case (Some r)
    have inv: "room_inv r" using rooms_inv_lookup [OF assms Some] .
    show ?thesis
    proof (cases "length (players r) \<ge> 2 \<or> state r \<noteq> Waiting")
      case True
      then show ?thesis
        using assms Some by (auto simp: handle_join_room_def Let_def rooms_inv_same_rooms)
    next
      case False
      let ?r' = "r\<lparr>players := players r @ [client_id],
                     guesses := (guesses r)(client_id \<mapsto> []),
                     finish_times := (finish_times r)(client_id \<mapsto> None),
                     results := (results r)(client_id \<mapsto> None),
                     state := Ready\<rparr>"
      have "room_inv ?r'"
        using inv False by (auto simp: room_inv_def)
      then have "rooms_inv (put_room ?rc ?r' st)"
        using assms by (rule rooms_inv_put_room [rotated])
      then show ?thesis
        using Some False
        by (auto simp: handle_join_room_def Let_def rooms_inv_def put_room_def
              split: option.splits)
    qed
  qed
qed

lemma rooms_inv_start_game:
  assumes "rooms_inv st"
  shows "rooms_inv (snd (handle_start_game client_id now st))"
proof (cases "get_player_room client_id st")
  case None
  then show ?thesis
    using assms by (simp add: handle_start_game_def rooms_inv_same_rooms)
next
  case (Some a)
  obtain room_code r where a: "a = (room_code, r)" by (cases a)
  have inv: "room_inv r" using rooms_inv_player_room [OF assms Some [unfolded a]] .
  show ?thesis
  proof (cases "state r = Ready")
    case False
    then show ?thesis
      using assms Some a by (simp add: handle_start_game_def rooms_inv_same_rooms)
  next
    case True
    have "room_inv (reset_players (players r) (r\<lparr>state := Playing, start_time := Some now\<rparr>))"
      using inv by (simp add: room_inv_reset_players)
    then have "rooms_inv (put_room room_code
                 (reset_players (players r) (r\<lparr>state := Playing, start_time := Some now\<rparr>)) st)"
      using assms by (rule rooms_inv_put_room [rotated])
    then show ?thesis
      using Some a True
      by (simp add: handle_start_game_def Let_def rooms_inv_def)
  qed
qed

lemma rooms_inv_rematch:
  assumes "rooms_inv st" and "w \<in> set WORD_BANK"
  shows "rooms_inv (snd (handle_rematch client_id w st))"
proof (cases "get_player_room client_id st")
  case None
  then show ?thesis
    using assms by (simp add: handle_rematch_def rooms_inv_same_rooms)
next
  case (Some a)
  obtain room_code r where a: "a = (room_code, r)" by (cases a)
  have inv: "room_inv r" using rooms_inv_player_room [OF assms(1) Some [unfolded a]] .
  show ?thesis
  proof (cases "state r = Finished")
    case False
    then show ?thesis
      using assms Some a by (simp add: handle_rematch_def rooms_inv_same_rooms)
  next
    case True
    let ?r' = "\<lparr>players = players r, word = py_upper w, state = Ready, start_time = None,
                guesses = dict_for (players r) [], finish_times = dict_for (players r) None,
                results = dict_for (players r) None\<rparr>"
    have "room_inv ?r'"
      using inv word_bank_length [OF assms(2)] by (simp add: room_inv_def dict_for_def)
    moreover have "rooms_inv (stop_timer room_code st)"
      using assms(1) by (simp add: rooms_inv_same_rooms)
    ultimately have "rooms_inv (put_room room_code ?r' (stop_timer room_code st))"
      by (rule rooms_inv_put_room [rotated])
    then show ?thesis
      using Some a True
      by (simp add: handle_rematch_def Let_def rooms_inv_def)
  qed
qed

lemma rooms_inv_timer_game:
  assumes "rooms_inv st"
  shows "rooms_inv (snd (timer_game room_code now st))"
proof (cases "map_of (game_rooms st) room_code")
  case None
  then show ?thesis using assms by (simp add: timer_game_def)
next
  case (Some r)
  have inv: "room_inv r" using rooms_inv_lookup [OF assms Some] .
  obtain e r' where tp: "timeout_players now (players r) r = (e, r')"
    by (cases "timeout_players now (players r) r")
  have "room_inv r'"
    using room_inv_timeout_players [OF inv, of now "players r"] tp by simp
  then have p: "rooms_inv (put_room room_code r' st)"
    using assms by (rule rooms_inv_put_room [rotated])
  then have "rooms_inv ((put_room room_code r' st)\<lparr>active_timers := T\<rparr>)" for T
    by (simp add: rooms_inv_def)
  then show ?thesis
    using assms Some tp p
    by (cases e) (auto simp: timer_game_def Let_def rooms_inv_check_game_end)
qed

lemma rooms_inv_make_guess:
  assumes "rooms_inv st"
  shows "rooms_inv (snd (handle_make_guess client_id guess0 now st))"
proof (cases "get_player_room client_id st")
  case None
  then show ?thesis
    using assms by (simp add: handle_make_guess_def rooms_inv_same_rooms)
next
  case (Some a)
  obtain room_code r where a: "a = (room_code, r)" by (cases a)
  have inv: "room_inv r" using rooms_inv_player_room [OF assms(1) Some [unfolded a]] .
  have step: "rooms_inv (snd (finish_player client_id room_code
                 (r\<lparr>guesses := (guesses r)(client_id \<mapsto> gs)\<rparr>) res now st'))"
    if "game_rooms st' = game_rooms (put_room room_code (r\<lparr>guesses := (guesses r)(client_id \<mapsto> gs)\<rparr>) st)"
    for gs res st'
  proof -
    have ri: "room_inv (r\<lparr>guesses := (guesses r)(client_id \<mapsto> gs)\<rparr>)"
      using inv by (auto simp: room_inv_def)
    then have "rooms_inv (put_room room_code (r\<lparr>guesses := (guesses r)(client_id \<mapsto> gs)\<rparr>) st)"
      using assms by (rule rooms_inv_put_room [rotated])
    then have "rooms_inv st'" using that by (simp add: rooms_inv_def)
    then show ?thesis using ri by (rule rooms_inv_finish_player)
  qed
  have keep: "rooms_inv st'"
    if "game_rooms st' = game_rooms (put_room room_code (r\<lparr>guesses := (guesses r)(client_id \<mapsto> gs)\<rparr>) st)"
    for gs st'
  proof -
    have ri: "room_inv (r\<lparr>guesses := (guesses r)(client_id \<mapsto> gs)\<rparr>)"
      using inv by (auto simp: room_inv_def)
    then have "rooms_inv (put_room room_code (r\<lparr>guesses := (guesses r)(client_id \<mapsto> gs)\<rparr>) st)"
      using assms by (rule rooms_inv_put_room [rotated])
    then show ?thesis using that by (simp add: rooms_inv_def)
  qed
  show ?thesis
    using Some a assms
    by (auto simp: handle_make_guess_def Let_def rooms_inv_same_rooms step keep
          split: option.splits sum.splits)
qed

text \<open>
  C8. Every room of the registry satisfies the room invariant (one or two players; an
  entry in \<open>guesses\<close>, \<open>finish_times\<close> and \<open>results\<close> for every player; a secret word of
  the configured length) after \<open>create_room\<close>, \<open>join_room\<close>, \<open>start_game\<close>,
  \<open>make_guess\<close>, \<open>rematch\<close> and a timer expiry, when every room satisfied it before and
  the word drawn comes from the word bank.
\<close>

theorem room_invariant_preserved:
  assumes "rooms_inv st" and "w \<in> set WORD_BANK"
  shows "rooms_inv (snd (handle_create_room client_id room_code w st))
         \<and> rooms_inv (snd (handle_join_room client_id room_code st))
         \<and> rooms_inv (snd (handle_start_game client_id t st))
         \<and> rooms_inv (snd (handle_make_guess client_id guess t st))
         \<and> rooms_inv (snd (handle_rematch client_id w st))
         \<and> rooms_inv (snd (timer_game room_code now st))"
  using assms
  by (simp add: rooms_inv_create_room rooms_inv_join_room rooms_inv_start_game
        rooms_inv_make_guess rooms_inv_rematch rooms_inv_timer_game)

theorem room_invariant_preserved_witness:
  "rooms_inv (example_server example_room)
   \<and> ''TIGER'' \<in> set WORD_BANK
   \<and> rooms_inv (snd (handle_create_room ''c3'' ''ABCDE'' ''TIGER'' (example_server example_room)))
   \<and> rooms_inv (snd (handle_join_room ''c3'' ''ABCDE'' (example_server example_room)))
   \<and> rooms_inv (snd (handle_start_game ''c1'' 1010 (example_server example_room)))
   \<and> rooms_inv (snd (handle_make_guess ''c1'' ''apple'' 1010 (example_server example_room)))
   \<and> rooms_inv (snd (handle_rematch ''c1'' ''TIGER'' (example_server example_room)))
   \<and> rooms_inv (snd (timer_game ''ABCDE'' (\<lambda>pid. 1180.5) (example_server example_room)))"
proof -
  have a: "rooms_inv (example_server example_room)"
    by (simp add: rooms_inv_def room_inv_def example_server_def example_room_def WORD_LENGTH_def)
  have b: "''TIGER'' \<in> set WORD_BANK"
    by (simp add: WORD_BANK_def)
  from room_invariant_preserved [OF a b, of "''c3''" "''ABCDE''"]
    room_invariant_preserved [OF a b, of "''c1''" "''ABCDE''" 1010 "''apple''" "\<lambda>pid. 1180.5"]
    a b
  show ?thesis by blast
qed

subsection \<open>A correct first guess\<close>

text \<open>
  In the example round the first player guesses the secret 12.5 seconds after the start:
  the player is recorded as the winner of its own round, the room stays playing, and
  the messages sent are the guess result, the note to the opponent and the player's own
  finish; no \<open>game_over\<close>.
\<close>

lemma first_finisher_does_not_end_round:
  "fst (handle_make_guess ''c1'' ''apple'' 1012.5 (example_server example_room)) = None
   \<and> map_option (\<lambda>r. (state r, finish_times r ''c1'', results r ''c1'', finish_times r ''c2''))
       (map_of (game_rooms (snd (handle_make_guess ''c1'' ''apple'' 1012.5
                                   (example_server example_room)))) ''ABCDE'')
       = Some (Playing, Some (Some 12.5), Some (Some Won), Some None)
   \<and> map (\<lambda>(c, m). (c, case m of Msg t d \<Rightarrow> t))
         (sent (snd (handle_make_guess ''c1'' ''apple'' 1012.5 (example_server example_room))))
       = [(''c1'', ''guess_result''), (''c2'', ''opponent_guessed''), (''c1'', ''player_finished'')]"
proof -
  have n: "py_strip (py_upper ''apple'') = ''APPLE''" by code_simp
  have f: "check_wordle_guess ''APPLE'' ''APPLE'' = Inr [Correct, Correct, Correct, Correct, Correct]"
    by code_simp
  show ?thesis
    by (simp add: handle_make_guess_def n f get_player_room_def example_server_def example_room_def
          Let_def WORD_LENGTH_def put_room_def send_message_def broadcast_to_room_def
          receivers_def finish_player_def check_game_end_def)
qed

subsection \<open>The normalised argument is the one used\<close>







end
